theory Spec2Isabelle
  imports Complex_Main "HOL-Library.Multiset"
begin

section \<open>Data model (types.ts)\<close>

datatype WcagLevel = A | AA | AAA

datatype Severity = ERROR | WARNING | INFO

datatype CheckType =
    ALT_TEXT | COLOR_CONTRAST | HEADING_STRUCTURE | ARIA_ATTRIBUTES
  | KEYBOARD_NAVIGATION | FORM_LABELS | FOCUS_INDICATORS | LANDMARK_REGIONS

text \<open>\<^verbatim>\<open>Object.values(CheckType)\<close>: the members in declaration order.\<close>

definition CheckType_values :: "CheckType list" where
  "CheckType_values =
     [ALT_TEXT, COLOR_CONTRAST, HEADING_STRUCTURE, ARIA_ATTRIBUTES,
      KEYBOARD_NAVIGATION, FORM_LABELS, FOCUS_INDICATORS, LANDMARK_REGIONS]"

text \<open>A thrown JavaScript value, kept as the text \<^verbatim>\<open>String(error)\<close> gives.\<close>

datatype error = Thrown string

fun error_text :: "error \<Rightarrow> string" where
  "error_text (Thrown s) = s"

text \<open>\<^verbatim>\<open>new Error(msg)\<close> prints as \<^verbatim>\<open>Error: msg\<close>.\<close>

definition new_Error :: "string \<Rightarrow> error" where
  "new_Error msg = Thrown (''Error: '' @ msg)"

record Element =
  selector :: string
  tagName :: string
  attributes :: "(string \<times> string) list"
  innerText :: "string option"
  outerHTML :: string

record Location =
  line :: "nat option"
  column :: "nat option"
  xpath :: string

text \<open>\<^verbatim>\<open>Partial<AccessibilityIssue['location']>\<close>: every field may be absent.\<close>

record PartialLocation =
  p_line :: "nat option"
  p_column :: "nat option"
  p_xpath :: "string option"

text \<open>Optional fields (\<^verbatim>\<open>element?\<close>, \<^verbatim>\<open>suggestedFix?\<close>, \<^verbatim>\<open>helpUrl?\<close>) are options:
  \<open>None\<close> is the field not being attached.\<close>

record AccessibilityIssue =
  id' :: string
  type :: CheckType
  severity :: Severity
  wcagLevel :: WcagLevel
  wcagReference :: string
  message :: string
  description :: string
  element :: "Element option"
  location :: Location
  suggestedFix :: "string option"
  helpUrl :: "string option"

section \<open>constants.ts\<close>

text \<open>\<^verbatim>\<open>WCAG_REFERENCES\<close>; \<open>None\<close> is the table's \<^verbatim>\<open>null\<close>.\<close>

fun WCAG_REFERENCES :: "CheckType \<Rightarrow> WcagLevel \<Rightarrow> string option" where
  "WCAG_REFERENCES ALT_TEXT A = Some ''1.1.1''"
| "WCAG_REFERENCES ALT_TEXT AA = Some ''1.1.1''"
| "WCAG_REFERENCES ALT_TEXT AAA = Some ''1.1.1''"
| "WCAG_REFERENCES COLOR_CONTRAST A = None"
| "WCAG_REFERENCES COLOR_CONTRAST AA = Some ''1.4.3''"
| "WCAG_REFERENCES COLOR_CONTRAST AAA = Some ''1.4.6''"
| "WCAG_REFERENCES HEADING_STRUCTURE A = Some ''1.3.1''"
| "WCAG_REFERENCES HEADING_STRUCTURE AA = Some ''1.3.1''"
| "WCAG_REFERENCES HEADING_STRUCTURE AAA = Some ''1.3.1''"
| "WCAG_REFERENCES ARIA_ATTRIBUTES A = Some ''4.1.2''"
| "WCAG_REFERENCES ARIA_ATTRIBUTES AA = Some ''4.1.2''"
| "WCAG_REFERENCES ARIA_ATTRIBUTES AAA = Some ''4.1.2''"
| "WCAG_REFERENCES KEYBOARD_NAVIGATION A = Some ''2.1.1''"
| "WCAG_REFERENCES KEYBOARD_NAVIGATION AA = Some ''2.1.1''"
| "WCAG_REFERENCES KEYBOARD_NAVIGATION AAA = Some ''2.1.3''"
| "WCAG_REFERENCES FORM_LABELS A = Some ''1.3.1''"
| "WCAG_REFERENCES FORM_LABELS AA = Some ''1.3.1''"
| "WCAG_REFERENCES FORM_LABELS AAA = Some ''1.3.1''"
| "WCAG_REFERENCES FOCUS_INDICATORS A = Some ''2.4.7''"
| "WCAG_REFERENCES FOCUS_INDICATORS AA = Some ''2.4.7''"
| "WCAG_REFERENCES FOCUS_INDICATORS AAA = Some ''2.4.7''"
| "WCAG_REFERENCES LANDMARK_REGIONS A = Some ''1.3.1''"
| "WCAG_REFERENCES LANDMARK_REGIONS AA = Some ''1.3.1''"
| "WCAG_REFERENCES LANDMARK_REGIONS AAA = Some ''1.3.1''"

section \<open>utils.ts\<close>

definition getWcagReference :: "CheckType \<Rightarrow> WcagLevel \<Rightarrow> string option" where
  "getWcagReference ty level = WCAG_REFERENCES ty level"

definition getWcagUrl :: "string \<Rightarrow> string" where
  "getWcagUrl reference =
     ''https://www.w3.org/WAI/WCAG21/Understanding/'' @ reference @ ''.html''"

text \<open>JavaScript truthiness of a \<^verbatim>\<open>string | null | undefined\<close>: present and not empty.\<close>

fun truthy :: "string option \<Rightarrow> bool" where
  "truthy None = False"
| "truthy (Some s) = (s \<noteq> [])"

text \<open>
  \<^verbatim>\<open>createAccessibilityIssue\<close>. The first argument is the value \<^verbatim>\<open>generateIssueId()\<close>
  returns for this call: it is read from the clock and \<^verbatim>\<open>Math.random\<close>, so the caller's
  environment supplies it.
\<close>

definition createAccessibilityIssue ::
  "string \<Rightarrow> CheckType \<Rightarrow> Severity \<Rightarrow> WcagLevel \<Rightarrow> string \<Rightarrow> string \<Rightarrow>
   Element option \<Rightarrow> PartialLocation option \<Rightarrow> string option \<Rightarrow> AccessibilityIssue" where
  "createAccessibilityIssue newId ty sev level msg descr el loc fix =
     (let reference = getWcagReference ty level in
      \<lparr> id' = newId,
        type = ty,
        severity = sev,
        wcagLevel = level,
        wcagReference = (if truthy reference then the reference else ''N/A''),
        message = msg,
        description = descr,
        element = el,
        location =
          \<lparr> line = (case loc of None \<Rightarrow> None | Some l \<Rightarrow> p_line l),
            column = (case loc of None \<Rightarrow> None | Some l \<Rightarrow> p_column l),
            xpath = (case loc of None \<Rightarrow> ''''
                     | Some l \<Rightarrow> (if truthy (p_xpath l) then the (p_xpath l) else '''')) \<rparr>,
        suggestedFix = (if truthy fix then fix else None),
        helpUrl = (if truthy reference then Some (getWcagUrl (the reference)) else None) \<rparr>)"

text \<open>\<^verbatim>\<open>Math.round\<close>: the nearest integer, a half rounding up.\<close>

definition Math_round :: "real \<Rightarrow> int" where
  "Math_round x = \<lfloor>x + 1 / 2\<rfloor>"

fun weights :: "Severity \<Rightarrow> int" where
  "weights ERROR = 10"
| "weights WARNING = 5"
| "weights INFO = 1"

definition calculateScore :: "AccessibilityIssue list \<Rightarrow> int" where
  "calculateScore issues =
     (if length issues = 0 then 100
      else
        let totalPenalty = foldl (\<lambda>total issue. total + weights (severity issue)) 0 issues;
            score = max 0 (100 - totalPenalty)
        in Math_round (of_int score))"

section \<open>JavaScript numbers\<close>

text \<open>
  A value of the type \<^verbatim>\<open>number\<close>: not-a-number, the two infinities, or a finite
  number. Arithmetic on finite numbers is taken to be exact.
\<close>

datatype number = NaN | NegInfinity | Finite real | PosInfinity

text \<open>The operator \<^verbatim>\<open>+\<close> on numbers.\<close>

fun number_add :: "number \<Rightarrow> number \<Rightarrow> number" where
  "number_add NaN y = NaN"
| "number_add x NaN = NaN"
| "number_add PosInfinity NegInfinity = NaN"
| "number_add NegInfinity PosInfinity = NaN"
| "number_add PosInfinity y = PosInfinity"
| "number_add x PosInfinity = PosInfinity"
| "number_add NegInfinity y = NegInfinity"
| "number_add x NegInfinity = NegInfinity"
| "number_add (Finite x) (Finite y) = Finite (x + y)"

text \<open>The operators \<^verbatim>\<open><\<close> and \<^verbatim>\<open><=\<close> on numbers: false as soon as one side is not a number.\<close>

fun number_less :: "number \<Rightarrow> number \<Rightarrow> bool" where
  "number_less NaN y = False"
| "number_less x NaN = False"
| "number_less x NegInfinity = False"
| "number_less NegInfinity y = True"
| "number_less PosInfinity y = False"
| "number_less (Finite x) PosInfinity = True"
| "number_less (Finite x) (Finite y) = (x < y)"

fun number_le :: "number \<Rightarrow> number \<Rightarrow> bool" where
  "number_le NaN y = False"
| "number_le x NaN = False"
| "number_le NegInfinity y = True"
| "number_le x PosInfinity = True"
| "number_le PosInfinity y = False"
| "number_le (Finite x) NegInfinity = False"
| "number_le (Finite x) (Finite y) = (x \<le> y)"

section \<open>Configuration (types.ts)\<close>

record Checks =
  enabled :: "CheckType list"
  disabled :: "CheckType list"

record Thresholds =
  colorContrastRatio :: real
  maxHeadingJump :: real

datatype Format = Json | Html | Console

record Output =
  format :: "Format list"
  outputDir :: "string option"
  verbose :: bool

record Viewport =
  width :: nat
  height :: nat

record BrowserOptions =
  headless :: bool
  viewport :: Viewport
  userAgent :: "string option"

text \<open>
  \<open>concurrent\<close> is any number: the interface types it \<^verbatim>\<open>number\<close>, and only the command
  line checks that it is a whole number from 1 to 10. The other numeric fields are only
  handed on to the browser.
\<close>

record HealthCheckConfig =
  wcagLevel :: WcagLevel
  checks :: Checks
  thresholds :: Thresholds
  output' :: Output
  browser :: BrowserOptions
  timeout :: nat
  concurrent :: number

text \<open>\<^verbatim>\<open>DEFAULT_CONFIG\<close> of constants.ts.\<close>

definition DEFAULT_CONFIG :: HealthCheckConfig where
  "DEFAULT_CONFIG =
     \<lparr> wcagLevel = AA,
       checks = \<lparr> enabled = CheckType_values, disabled = [] \<rparr>,
       thresholds = \<lparr> colorContrastRatio = 9 / 2, maxHeadingJump = 1 \<rparr>,
       output' = \<lparr> format = [Console], outputDir = None, verbose = False \<rparr>,
       browser = \<lparr> headless = True, viewport = \<lparr> width = 1920, height = 1080 \<rparr>,
                   userAgent = None \<rparr>,
       timeout = 30000,
       concurrent = Finite 3 \<rparr>"

section \<open>The page handle\<close>

text \<open>
  What a checker's in-page script hands back for one finding (an untyped object in the
  source), together with \<open>f_id\<close>, the value \<^verbatim>\<open>generateIssueId()\<close> yields when the
  finding is turned into an issue.
\<close>

record Finding =
  f_element :: "Element option"
  f_severity :: string
  f_message :: string
  f_description :: string
  f_suggestedFix :: "string option"
  f_id :: string

text \<open>The scripts the checkers pass to \<^verbatim>\<open>page.evaluate\<close>, with the argument they are given.\<close>

datatype Script =
    AltTextScript
  | ColorContrastScript real
  | HeadingStructureScript real
  | AriaAttributesScript
  | FormLabelsScript

text \<open>
  A Playwright page is outside the repository: the record holds what each operation the
  code calls on it answers (\<open>Some e\<close> and \<open>Inl e\<close>: the operation throws \<open>e\<close>), and
  \<open>settled\<close>, the instant at which the check of each checker type settles on this page.
  Clock readings (timestamps, durations) are left out of every record.
\<close>

record Page =
  goto :: "string \<Rightarrow> error option"
  waitForFunction :: "error option"
  waitForLoadState :: "error option"
  waitForTimeout :: "error option"
  evaluate :: "Script \<Rightarrow> error + Finding list"
  settled :: "CheckType \<Rightarrow> nat"

text \<open>\<^verbatim>\<open>PageAnalyzer.waitForAccessibilityTree\<close> (browser.ts).\<close>

definition waitForAccessibilityTree :: "Page \<Rightarrow> error + unit" where
  "waitForAccessibilityTree page =
     (case waitForFunction page of
        Some e \<Rightarrow> Inl e
      | None \<Rightarrow>
          (case waitForLoadState page of
             Some e \<Rightarrow> Inl e
           | None \<Rightarrow> (case waitForTimeout page of Some e \<Rightarrow> Inl e | None \<Rightarrow> Inr ())))"

section \<open>Checkers (checkers/*.ts)\<close>

record CheckerResult =
  type :: CheckType
  issues :: "AccessibilityIssue list"

datatype Checker =
    AltTextChecker
  | ColorContrastChecker
  | HeadingStructureChecker
  | AriaAttributesChecker
  | FormLabelsChecker

text \<open>The \<^verbatim>\<open>readonly type\<close> of each checker class.\<close>

fun Checker_type :: "Checker \<Rightarrow> CheckType" where
  "Checker_type AltTextChecker = ALT_TEXT"
| "Checker_type ColorContrastChecker = COLOR_CONTRAST"
| "Checker_type HeadingStructureChecker = HEADING_STRUCTURE"
| "Checker_type AriaAttributesChecker = ARIA_ATTRIBUTES"
| "Checker_type FormLabelsChecker = FORM_LABELS"

definition AltTextChecker_check :: "Page \<Rightarrow> HealthCheckConfig \<Rightarrow> error + CheckerResult" where
  "AltTextChecker_check page config =
     (case evaluate page AltTextScript of
        Inl e \<Rightarrow> Inl e
      | Inr found \<Rightarrow>
          Inr \<lparr> type = ALT_TEXT,
                issues = map (\<lambda>issue.
                  createAccessibilityIssue (f_id issue) ALT_TEXT
                    (if f_severity issue = ''error'' then ERROR else WARNING)
                    A (f_message issue) (f_description issue) (f_element issue) None
                    (f_suggestedFix issue)) found \<rparr>)"

definition ColorContrastChecker_check :: "Page \<Rightarrow> HealthCheckConfig \<Rightarrow> error + CheckerResult" where
  "ColorContrastChecker_check page config =
     (case evaluate page (ColorContrastScript (colorContrastRatio (thresholds config))) of
        Inl e \<Rightarrow> Inl e
      | Inr found \<Rightarrow>
          Inr \<lparr> type = COLOR_CONTRAST,
                issues = map (\<lambda>issue.
                  createAccessibilityIssue (f_id issue) COLOR_CONTRAST
                    (if f_severity issue = ''error'' then ERROR else WARNING)
                    (HealthCheckConfig.wcagLevel config)
                    (f_message issue) (f_description issue) (f_element issue) None
                    (f_suggestedFix issue)) found \<rparr>)"

definition HeadingStructureChecker_check :: "Page \<Rightarrow> HealthCheckConfig \<Rightarrow> error + CheckerResult" where
  "HeadingStructureChecker_check page config =
     (case evaluate page (HeadingStructureScript (maxHeadingJump (thresholds config))) of
        Inl e \<Rightarrow> Inl e
      | Inr found \<Rightarrow>
          Inr \<lparr> type = HEADING_STRUCTURE,
                issues = map (\<lambda>issue.
                  createAccessibilityIssue (f_id issue) HEADING_STRUCTURE
                    (if f_severity issue = ''error'' then ERROR
                     else if f_severity issue = ''warning'' then WARNING else INFO)
                    A (f_message issue) (f_description issue) (f_element issue) None
                    (f_suggestedFix issue)) found \<rparr>)"

definition AriaAttributesChecker_check :: "Page \<Rightarrow> HealthCheckConfig \<Rightarrow> error + CheckerResult" where
  "AriaAttributesChecker_check page config =
     (case evaluate page AriaAttributesScript of
        Inl e \<Rightarrow> Inl e
      | Inr found \<Rightarrow>
          Inr \<lparr> type = ARIA_ATTRIBUTES,
                issues = map (\<lambda>issue.
                  createAccessibilityIssue (f_id issue) ARIA_ATTRIBUTES
                    (if f_severity issue = ''error'' then ERROR else WARNING)
                    A (f_message issue) (f_description issue) (f_element issue) None
                    (f_suggestedFix issue)) found \<rparr>)"

definition FormLabelsChecker_check :: "Page \<Rightarrow> HealthCheckConfig \<Rightarrow> error + CheckerResult" where
  "FormLabelsChecker_check page config =
     (case evaluate page FormLabelsScript of
        Inl e \<Rightarrow> Inl e
      | Inr found \<Rightarrow>
          Inr \<lparr> type = FORM_LABELS,
                issues = map (\<lambda>issue.
                  createAccessibilityIssue (f_id issue) FORM_LABELS
                    (if f_severity issue = ''error'' then ERROR else WARNING)
                    A (f_message issue) (f_description issue) (f_element issue) None
                    (f_suggestedFix issue)) found \<rparr>)"

text \<open>The interface method \<^verbatim>\<open>checker.check(page, config)\<close>, dispatched on the class.\<close>

fun check :: "Checker \<Rightarrow> Page \<Rightarrow> HealthCheckConfig \<Rightarrow> error + CheckerResult" where
  "check AltTextChecker page config = AltTextChecker_check page config"
| "check ColorContrastChecker page config = ColorContrastChecker_check page config"
| "check HeadingStructureChecker page config = HeadingStructureChecker_check page config"
| "check AriaAttributesChecker page config = AriaAttributesChecker_check page config"
| "check FormLabelsChecker page config = FormLabelsChecker_check page config"

text \<open>\<^verbatim>\<open>ALL_CHECKERS\<close> of checkers/index.ts.\<close>

definition ALL_CHECKERS :: "Checker list" where
  "ALL_CHECKERS =
     [AltTextChecker, ColorContrastChecker, HeadingStructureChecker,
      AriaAttributesChecker, FormLabelsChecker]"

section \<open>Promises\<close>

text \<open>
  \<^verbatim>\<open>Promise.all\<close> over tasks that have all been started. Each task is the instant at
  which it settles and what it settles to. When no task rejects the result is the list
  of values in the order of the tasks; otherwise it is the rejection that happens first
  (the earliest in the list among simultaneous ones).
\<close>

definition promiseAll :: "(nat \<times> (error + 'a)) list \<Rightarrow> error + 'a list" where
  "promiseAll tasks =
     (case filter (\<lambda>t. isl (snd t)) tasks of
        [] \<Rightarrow> Inr (map (\<lambda>t. projr (snd t)) tasks)
      | r # rs \<Rightarrow> Inl (projl (snd (arg_min_list fst (r # rs)))))"

text \<open>
  The instant at which that promise settles, for tasks started at \<open>now\<close>: the first
  rejection if there is one, otherwise the last fulfilment.
\<close>

definition promiseAllSettled :: "nat \<Rightarrow> (nat \<times> (error + 'a)) list \<Rightarrow> nat" where
  "promiseAllSettled now tasks =
     (case filter (\<lambda>t. isl (snd t)) tasks of
        [] \<Rightarrow> fold max (map fst tasks) now
      | r # rs \<Rightarrow> fst (arg_min_list fst (r # rs)))"

section \<open>Reports (types.ts)\<close>

record PageHealthReport =
  url :: string
  totalIssues :: nat
  issuesBySeverity :: "Severity \<rightharpoonup> nat"
  issuesByType :: "CheckType \<rightharpoonup> nat"
  wcagCompliance :: "WcagLevel \<rightharpoonup> bool"
  issues :: "AccessibilityIssue list"
  score :: int

record Summary =
  totalPages :: nat
  totalIssues :: nat
  overallScore :: int

record HealthCheckReport =
  summary :: Summary
  pages :: "PageHealthReport list"
  configuration :: HealthCheckConfig

section \<open>The page check (health-checker.ts)\<close>

definition isWcagCompliant :: "AccessibilityIssue list \<Rightarrow> WcagLevel \<Rightarrow> bool" where
  "isWcagCompliant allIssues level =
     (\<not> list_ex (\<lambda>issue. AccessibilityIssue.wcagLevel issue = level \<and> severity issue = ERROR)
          allIssues)"

text \<open>The filter at the head of the checker run: \<^verbatim>\<open>includes\<close> is list membership.\<close>

definition enabledCheckers :: "HealthCheckConfig \<Rightarrow> Checker list" where
  "enabledCheckers config =
     filter (\<lambda>checker.
        Checker_type checker \<in> set (enabled (checks config)) \<and>
        Checker_type checker \<notin> set (disabled (checks config))) ALL_CHECKERS"

definition checkPage :: "HealthCheckConfig \<Rightarrow> Page \<Rightarrow> string \<Rightarrow> error + PageHealthReport" where
  "checkPage config page u =
     (case goto page u of
        Some e \<Rightarrow> Inl (new_Error (''Failed to load '' @ u @ '': '' @ error_text e))
      | None \<Rightarrow>
     (case waitForAccessibilityTree page of
        Inl e \<Rightarrow> Inl e
      | Inr _ \<Rightarrow>
     (case promiseAll
             (map (\<lambda>checker. (settled page (Checker_type checker), check checker page config))
                (enabledCheckers config)) of
        Inl e \<Rightarrow> Inl e
      | Inr checkerResults \<Rightarrow>
          (let allIssues = concat (map CheckerResult.issues checkerResults);
               bySeverity =
                 [ERROR \<mapsto> length (filter (\<lambda>issue. severity issue = ERROR) allIssues),
                  WARNING \<mapsto> length (filter (\<lambda>issue. severity issue = WARNING) allIssues),
                  INFO \<mapsto> length (filter (\<lambda>issue. severity issue = INFO) allIssues)];
               byType =
                 foldl (\<lambda>acc ty.
                          acc(ty \<mapsto> length (filter (\<lambda>issue. AccessibilityIssue.type issue = ty)
                                                allIssues)))
                   Map.empty CheckType_values;
               compliance =
                 [A \<mapsto> isWcagCompliant allIssues A,
                  AA \<mapsto> isWcagCompliant allIssues AA,
                  AAA \<mapsto> isWcagCompliant allIssues AAA]
           in Inr \<lparr> url = u,
                    totalIssues = length allIssues,
                    issuesBySeverity = bySeverity,
                    issuesByType = byType,
                    wcagCompliance = compliance,
                    issues = allIssues,
                    score = calculateScore allIssues \<rparr>))))"

section \<open>The session (browser.ts)\<close>

record Browser =
  launchedHeadless :: bool

record BrowserContext =
  contextViewport :: Viewport
  contextUserAgent :: "string option"
  defaultTimeout :: nat
  defaultNavigationTimeout :: nat

record BrowserManager =
  browser :: "Browser option"
  context' :: "BrowserContext option"

text \<open>The engine is taken to start and to shut down when asked.\<close>

definition launch :: "HealthCheckConfig \<Rightarrow> BrowserManager \<Rightarrow> BrowserManager" where
  "launch config bm =
     bm \<lparr> browser := Some \<lparr> launchedHeadless = headless (HealthCheckConfig.browser config) \<rparr>,
          context' := Some \<lparr> contextViewport = viewport (HealthCheckConfig.browser config),
                            contextUserAgent =
                              (if truthy (userAgent (HealthCheckConfig.browser config))
                               then userAgent (HealthCheckConfig.browser config) else None),
                            defaultTimeout = timeout config,
                            defaultNavigationTimeout = timeout config \<rparr> \<rparr>"

text \<open>\<^verbatim>\<open>createPage\<close>; \<open>fresh\<close> is the page \<^verbatim>\<open>context.newPage()\<close> hands out.\<close>

definition createPage :: "BrowserManager \<Rightarrow> Page \<Rightarrow> error + Page" where
  "createPage bm fresh =
     (if context' bm = None
      then Inl (new_Error ''Browser context not initialized. Call launch() first.'')
      else Inr fresh)"

definition close :: "BrowserManager \<Rightarrow> BrowserManager" where
  "close bm =
     (let bm1 = (if context' bm \<noteq> None then bm \<lparr> context' := None \<rparr> else bm)
      in (if BrowserManager.browser bm1 \<noteq> None then bm1 \<lparr> browser := None \<rparr> else bm1))"

definition isLaunched :: "BrowserManager \<Rightarrow> bool" where
  "isLaunched bm = (BrowserManager.browser bm \<noteq> None \<and> context' bm \<noteq> None)"

section \<open>Reporters (reporters/*.ts)\<close>

text \<open>
  The console reporter sorts each page's issue array in place before it prints the top
  three (\<^verbatim>\<open>page.issues.sort(...)\<close>, a stable sort, heaviest severity first), so the
  report object it was given comes back reordered.
\<close>

fun severityWeight :: "Severity \<Rightarrow> int" where
  "severityWeight ERROR = 3"
| "severityWeight WARNING = 2"
| "severityWeight INFO = 1"

definition renderPageReport :: "PageHealthReport \<Rightarrow> PageHealthReport" where
  "renderPageReport page =
     (if PageHealthReport.totalIssues page > 0
      then page \<lparr> issues := sort_key (\<lambda>issue. - severityWeight (severity issue))
                               (PageHealthReport.issues page) \<rparr>
      else page)"

definition ConsoleReporter_generate :: "HealthCheckReport \<Rightarrow> HealthCheckReport" where
  "ConsoleReporter_generate report = report \<lparr> pages := map renderPageReport (pages report) \<rparr>"

text \<open>
  The world a run meets: \<open>newPage u\<close> is the page handed to the task that checks \<open>u\<close>,
  \<open>pageTime u\<close> how long that task takes from its start to its settling, \<open>writeFile f\<close>
  what writing the report file of format \<open>f\<close> does, \<open>reporterSettled f\<close> when that
  reporter settles.
\<close>

record Env =
  newPage :: "string \<Rightarrow> Page"
  pageTime :: "string \<Rightarrow> nat"
  writeFile :: "Format \<Rightarrow> error option"
  reporterSettled :: "Format \<Rightarrow> nat"

text \<open>
  \<^verbatim>\<open>generateReports\<close>: the reporters are started in the order console, json, html and
  awaited together. The json and html reporters rethrow a failed write. The result is
  the report object as the reporters leave it.
\<close>

definition generateReports ::
  "Env \<Rightarrow> HealthCheckConfig \<Rightarrow> HealthCheckReport \<Rightarrow> error + HealthCheckReport" where
  "generateReports env config report =
     (let formats = format (output' config);
          report1 = (if Console \<in> set formats then ConsoleReporter_generate report else report);
          reportPromises =
            (if Console \<in> set formats then [(reporterSettled env Console, Inr ())] else []) @
            (if Json \<in> set formats
             then [(reporterSettled env Json,
                    case writeFile env Json of Some e \<Rightarrow> Inl e | None \<Rightarrow> Inr ())] else []) @
            (if Html \<in> set formats
             then [(reporterSettled env Html,
                    case writeFile env Html of Some e \<Rightarrow> Inl e | None \<Rightarrow> Inr ())] else [])
      in case promiseAll reportPromises of Inl e \<Rightarrow> Inl e | Inr _ \<Rightarrow> Inr report1)"

section \<open>The orchestrator (health-checker.ts)\<close>

text \<open>The integral part of a finite number, rounding towards zero.\<close>

definition Math_trunc :: "real \<Rightarrow> int" where
  "Math_trunc x = (if 0 \<le> x then \<lfloor>x\<rfloor> else \<lceil>x\<rceil>)"

text \<open>
  How \<^verbatim>\<open>Array.prototype.slice\<close> reads one of its arguments for an array of length
  \<open>len\<close>: the argument is made an integer or an infinity (not-a-number counts as 0), a
  negative one counts from the end, and the result is kept between 0 and \<open>len\<close>.
\<close>

fun relativeIndex :: "nat \<Rightarrow> number \<Rightarrow> nat" where
  "relativeIndex len NaN = 0"
| "relativeIndex len NegInfinity = 0"
| "relativeIndex len PosInfinity = len"
| "relativeIndex len (Finite x) =
     (let r = Math_trunc x
      in if r < 0 then nat (max (int len + r) 0) else nat (min r (int len)))"

text \<open>\<^verbatim>\<open>array.slice(start, end)\<close>: the elements from the one index up to the other.\<close>

definition slice :: "'a list \<Rightarrow> number \<Rightarrow> number \<Rightarrow> 'a list" where
  "slice array start end' =
     (let len = length array;
          k = relativeIndex len start;
          final = relativeIndex len end'
      in take (final - k) (drop k array))"

text \<open>
  The \<^verbatim>\<open>for\<close> loop of \<^verbatim>\<open>chunkArray\<close>: the index \<open>i\<close> is a number and is not rounded,
  only \<^verbatim>\<open>slice\<close> rounds. \<open>None\<close> is the loop running forever.
\<close>

partial_function (option) chunkLoop ::
  "'a list \<Rightarrow> number \<Rightarrow> number \<Rightarrow> 'a list list \<Rightarrow> 'a list list option" where
  "chunkLoop array chunkSize i chunks =
     (if number_less i (Finite (real (length array)))
      then chunkLoop array chunkSize (number_add i chunkSize)
             (chunks @ [slice array i (number_add i chunkSize)])
      else Some chunks)"

definition chunkArray :: "'a list \<Rightarrow> number \<Rightarrow> 'a list list option" where
  "chunkArray array chunkSize = chunkLoop array chunkSize (Finite 0) []"

text \<open>The task started for each URL of a batch.\<close>

definition pageTask ::
  "Env \<Rightarrow> HealthCheckConfig \<Rightarrow> BrowserManager \<Rightarrow> string \<Rightarrow> error + PageHealthReport" where
  "pageTask env config bm u =
     (case createPage bm (newPage env u) of
        Inl e \<Rightarrow> Inl e
      | Inr page \<Rightarrow> checkPage config page u)"

definition checkUrl ::
  "Env \<Rightarrow> HealthCheckConfig \<Rightarrow> BrowserManager \<Rightarrow> string \<Rightarrow>
   BrowserManager \<times> (error + PageHealthReport)" where
  "checkUrl env config bm u =
     (let bm1 = (if \<not> isLaunched bm then launch config bm else bm)
      in (bm1, pageTask env config bm1 u))"

text \<open>When one page task was started and when it settles.\<close>

record TaskLog =
  taskUrl :: string
  startedAt :: nat
  settledAt :: nat

text \<open>
  The loop over the batches, from the instant \<open>now\<close>. The tasks of a batch are all
  started at once; the \<^verbatim>\<open>await\<close> resumes the loop at the instant their
  \<^verbatim>\<open>Promise.all\<close> settles, and a rejection leaves the loop. Beside the outcome the
  function returns, batch by batch, the tasks it started.
\<close>

fun processChunks ::
  "Env \<Rightarrow> HealthCheckConfig \<Rightarrow> BrowserManager \<Rightarrow> nat \<Rightarrow> string list list \<Rightarrow>
   PageHealthReport list \<Rightarrow> TaskLog list list \<times> (error + PageHealthReport list)" where
  "processChunks env config bm now [] pageReports = ([], Inr pageReports)"
| "processChunks env config bm now (chunk # rest) pageReports =
     (let chunkPromises = map (\<lambda>u. (now + pageTime env u, pageTask env config bm u)) chunk;
          started = map (\<lambda>u. \<lparr> taskUrl = u, startedAt = now,
                                settledAt = now + pageTime env u \<rparr>) chunk
      in case promiseAll chunkPromises of
           Inl e \<Rightarrow> ([started], Inl e)
         | Inr chunkResults \<Rightarrow>
             (case processChunks env config bm (promiseAllSettled now chunkPromises) rest
                     (pageReports @ chunkResults) of
                (later, result) \<Rightarrow> (started # later, result)))"

definition buildReport :: "HealthCheckConfig \<Rightarrow> PageHealthReport list \<Rightarrow> HealthCheckReport" where
  "buildReport config pageReports =
     (let total = foldl (\<lambda>sum page. sum + PageHealthReport.totalIssues page) 0 pageReports;
          overall =
            (if length pageReports > 0
             then Math_round (of_int (foldl (\<lambda>sum page. sum + score page) 0 pageReports)
                              / of_nat (length pageReports))
             else 100)
      in \<lparr> summary = \<lparr> totalPages = length pageReports, totalIssues = total,
                        overallScore = overall \<rparr>,
           pages = pageReports,
           configuration = config \<rparr>)"

text \<open>
  \<^verbatim>\<open>checkUrls\<close>: the manager after the call and what the call settles to; \<open>None\<close> when
  the call never settles. The \<^verbatim>\<open>finally\<close> block closes the session on both paths.
\<close>

definition checkUrls ::
  "Env \<Rightarrow> HealthCheckConfig \<Rightarrow> BrowserManager \<Rightarrow> string list \<Rightarrow>
   (BrowserManager \<times> (error + HealthCheckReport)) option" where
  "checkUrls env config bm urls =
     (let bm1 = (if \<not> isLaunched bm then launch config bm else bm)
      in case chunkArray urls (concurrent config) of
           None \<Rightarrow> None
         | Some chunks \<Rightarrow>
             Some (close bm1,
                   case snd (processChunks env config bm1 0 chunks []) of
                     Inl e \<Rightarrow> Inl e
                   | Inr pageReports \<Rightarrow> generateReports env config (buildReport config pageReports)))"

section \<open>Auxiliary notions\<close>

text \<open>
  The issues of the enabled checkers on a page, concatenated in registry order (the
  \<^verbatim>\<open>allIssues\<close> of a page check in which every enabled checker returns).
\<close>

definition checkerIssues :: "HealthCheckConfig \<Rightarrow> Page \<Rightarrow> AccessibilityIssue list" where
  "checkerIssues cfg page =
     concat (map (\<lambda>c. CheckerResult.issues (projr (check c page cfg))) (enabledCheckers cfg))"

text \<open>
  The partition the specification describes: consecutive batches of \<open>n\<close> elements, the
  last one possibly shorter. The loop of \<^verbatim>\<open>chunkArray\<close> is compared with it below.
\<close>

function consecutiveBatches :: "nat \<Rightarrow> 'a list \<Rightarrow> 'a list list" where
  "consecutiveBatches n xs =
     (if n = 0 \<or> xs = [] then [] else take n xs # consecutiveBatches n (drop n xs))"
  by pat_completeness auto
termination
  by (relation "measure (\<lambda>(n, xs). length xs)") auto

declare consecutiveBatches.simps [simp del]

text \<open>The manager once a call has made sure the session is launched.\<close>

definition session :: "HealthCheckConfig \<Rightarrow> BrowserManager \<Rightarrow> BrowserManager" where
  "session config bm = (if \<not> isLaunched bm then launch config bm else bm)"

section \<open>Sample inputs\<close>

text \<open>The issue the unit tests of utils.ts build, for a given severity.\<close>

definition sampleIssue :: "Severity \<Rightarrow> AccessibilityIssue" where
  "sampleIssue sev =
     createAccessibilityIssue ''issue-1-abc'' ALT_TEXT sev A ''Error'' ''Description''
       None None None"

text \<open>
  A page with one image that lacks an \<^verbatim>\<open>alt\<close> attribute and one text of poor
  contrast: what the scripts of the alt-text and the color-contrast checker report on
  it, and the issues built from that.
\<close>

definition sampleUrl :: string where
  "sampleUrl = ''https://example.com''"

definition sampleFinding :: Finding where
  "sampleFinding =
     \<lparr> f_element = Some \<lparr> selector = ''#logo'', tagName = ''img'',
                           attributes = [(''src'', ''logo.png''), (''alt'', '''')],
                           innerText = None, outerHTML = ''<img id=logo src=logo.png>'' \<rparr>,
       f_severity = ''error'',
       f_message = ''Image missing alt attribute'',
       f_description = ''All images must have an alt attribute for screen readers'',
       f_suggestedFix = Some ''Add an alt attribute'',
       f_id = ''issue-1700000000000-k3j2h1g0f'' \<rparr>"

definition contrastFinding :: Finding where
  "contrastFinding =
     \<lparr> f_element = None,
       f_severity = ''warning'',
       f_message = ''Poor color contrast ratio: 3.20:1'',
       f_description = ''Text has insufficient contrast ratio.'',
       f_suggestedFix = None,
       f_id = ''issue-1700000000001-a1b2c3d4e'' \<rparr>"

definition samplePage :: Page where
  "samplePage =
     \<lparr> goto = (\<lambda>u. None), waitForFunction = None, waitForLoadState = None,
       waitForTimeout = None,
       evaluate = (\<lambda>s. case s of AltTextScript \<Rightarrow> Inr [sampleFinding]
                        | ColorContrastScript x \<Rightarrow> Inr [contrastFinding]
                        | _ \<Rightarrow> Inr []),
       settled = (\<lambda>t. 0) \<rparr>"

text \<open>The same page with the script of the alt-text checker throwing.\<close>

definition throwingPage :: Page where
  "throwingPage =
     samplePage \<lparr> evaluate := (evaluate samplePage)
                    (AltTextScript := Inl (Thrown ''Error: page.evaluate: Target closed'')) \<rparr>"

definition sampleAltIssue :: AccessibilityIssue where
  "sampleAltIssue =
     createAccessibilityIssue (f_id sampleFinding) ALT_TEXT ERROR A (f_message sampleFinding)
       (f_description sampleFinding) (f_element sampleFinding) None (f_suggestedFix sampleFinding)"

definition sampleContrastIssue :: "WcagLevel \<Rightarrow> AccessibilityIssue" where
  "sampleContrastIssue l =
     createAccessibilityIssue (f_id contrastFinding) COLOR_CONTRAST WARNING l
       (f_message contrastFinding) (f_description contrastFinding) None None None"

text \<open>A configuration that lists the alt-text checker as enabled and as disabled.\<close>

definition conflictConfig :: HealthCheckConfig where
  "conflictConfig =
     DEFAULT_CONFIG \<lparr> checks := \<lparr> enabled = CheckType_values, disabled = [ALT_TEXT] \<rparr> \<rparr>"

text \<open>\<^verbatim>\<open>new BrowserManager()\<close>.\<close>

definition unlaunched :: BrowserManager where
  "unlaunched = \<lparr> browser = None, context' = None \<rparr>"

text \<open>
  A world in which one URL does not load and the JSON report file cannot be written,
  configurations that ask for the JSON report and for batches of two, and five URLs. The
  check of the first of them takes 30 units of time, every other one 10.
\<close>

definition brokenUrl :: string where
  "brokenUrl = ''https://broken.example''"

definition brokenPage :: Page where
  "brokenPage = samplePage \<lparr> goto := (\<lambda>u. Some (Thrown ''Error: net::ERR_NAME_NOT_RESOLVED'')) \<rparr>"

definition sampleEnv :: Env where
  "sampleEnv =
     \<lparr> newPage = (\<lambda>u. if u = brokenUrl then brokenPage else samplePage),
       pageTime = (\<lambda>u. if u = ''https://example.com/1'' then 30 else 10),
       writeFile = (\<lambda>f. if f = Json then Some (Thrown ''Error: EACCES: permission denied'')
                         else None),
       reporterSettled = (\<lambda>f. 0) \<rparr>"

definition jsonConfig :: HealthCheckConfig where
  "jsonConfig =
     DEFAULT_CONFIG \<lparr> output' := \<lparr> format = [Console, Json], outputDir = Some ''./reports'',
                                    verbose = False \<rparr> \<rparr>"



definition urls5 :: "string list" where
  "urls5 = [''https://example.com/1'', ''https://example.com/2'', ''https://example.com/3'',
            ''https://example.com/4'', ''https://example.com/5'']"

section \<open>Score\<close>

lemma Math_round_of_int: "Math_round (of_int n) = n"
  unfolding Math_round_def by linarith

lemma foldl_penalty:
  "foldl (\<lambda>total issue. total + f issue) (a::int) xs = a + sum_list (map f xs)"
  by (induction xs arbitrary: a) simp_all

lemma calculateScore_sum:
  "calculateScore xs = max 0 (100 - (\<Sum>i\<leftarrow>xs. weights (severity i)))"
  by (cases xs) (simp_all add: calculateScore_def Math_round_of_int foldl_penalty)

lemma penalty_mset:
  "(\<Sum>i\<leftarrow>xs. weights (severity i)) = sum_mset (image_mset weights (mset (map severity xs)))"
  by (induction xs) simp_all

text \<open>
  C1. The score is \<open>max 0 (100 - penalty)\<close>, the penalty being the sum of the weights
  error = 10, warning = 5, info = 1 over the issues; the empty list scores 100; two lists
  with the same multiset of severities (in particular a list and any permutation of it)
  score the same.
\<close>

theorem calculateScore_spec:
  "weights ERROR = 10 \<and> weights WARNING = 5 \<and> weights INFO = 1
   \<and> calculateScore xs = max 0 (100 - (\<Sum>i\<leftarrow>xs. weights (severity i)))
   \<and> calculateScore [] = 100
   \<and> (mset (map severity xs) = mset (map severity ys)
        \<longrightarrow> calculateScore xs = calculateScore ys)
   \<and> (mset xs = mset ys \<longrightarrow> calculateScore xs = calculateScore ys)"
proof -
  have same: "calculateScore xs = calculateScore ys"
    if "mset (map severity xs) = mset (map severity ys)"
    using that by (simp add: calculateScore_sum penalty_mset)
  have perm: "calculateScore xs = calculateScore ys" if "mset xs = mset ys"
  proof -
    from that have "mset (map severity xs) = mset (map severity ys)"
      by (metis mset_map)
    then show ?thesis by (rule same)
  qed
  show ?thesis
    using same perm by (simp add: calculateScore_sum)
qed

lemma create_fields [simp]:
  "severity (createAccessibilityIssue i t s l m d e lo f) = s"
  "AccessibilityIssue.type (createAccessibilityIssue i t s l m d e lo f) = t"
  "AccessibilityIssue.wcagLevel (createAccessibilityIssue i t s l m d e lo f) = l"
  by (simp_all add: createAccessibilityIssue_def Let_def)

theorem calculateScore_spec_witness:
  "mset (map severity [sampleIssue ERROR, sampleIssue WARNING, sampleIssue INFO])
     = mset (map severity [sampleIssue INFO, sampleIssue ERROR, sampleIssue WARNING])
   \<and> calculateScore [sampleIssue ERROR, sampleIssue WARNING, sampleIssue INFO] = 84
   \<and> calculateScore [sampleIssue INFO, sampleIssue ERROR, sampleIssue WARNING] = 84"
  using calculateScore_spec
    [of "[sampleIssue ERROR, sampleIssue WARNING, sampleIssue INFO]"
        "[sampleIssue INFO, sampleIssue ERROR, sampleIssue WARNING]"]
  by (simp add: sampleIssue_def)

section \<open>Issue construction\<close>

lemma WCAG_REFERENCES_truthy: "WCAG_REFERENCES t l = Some c \<Longrightarrow> c \<noteq> []"
  by (cases t; cases l) auto

lemma WCAG_REFERENCES_None: "WCAG_REFERENCES t l = None \<longleftrightarrow> t = COLOR_CONTRAST \<and> l = A"
  by (cases t; cases l) auto

text \<open>
  C6. For every checker type and level, the issue built by \<^verbatim>\<open>createAccessibilityIssue\<close>
  carries the table's clause as its reference and the Understanding page of that clause
  as its help URL when the table has a clause; when the table has none, the reference is
  \<^verbatim>\<open>N/A\<close> and no help URL is attached. The table has no clause for color-contrast at
  level A and only there.
\<close>

theorem createAccessibilityIssue_reference:
  "(case WCAG_REFERENCES t l of
      Some clause \<Rightarrow>
        wcagReference (createAccessibilityIssue i t s l m d e lo f) = clause
        \<and> helpUrl (createAccessibilityIssue i t s l m d e lo f)
            = Some (''https://www.w3.org/WAI/WCAG21/Understanding/'' @ clause @ ''.html'')
    | None \<Rightarrow>
        wcagReference (createAccessibilityIssue i t s l m d e lo f) = ''N/A''
        \<and> helpUrl (createAccessibilityIssue i t s l m d e lo f) = None)
   \<and> (WCAG_REFERENCES t l = None \<longleftrightarrow> t = COLOR_CONTRAST \<and> l = A)"
proof (cases "WCAG_REFERENCES t l")
  case None
  then show ?thesis
    by (simp add: createAccessibilityIssue_def getWcagReference_def WCAG_REFERENCES_None)
next
  case (Some c)
  then have "c \<noteq> []" by (rule WCAG_REFERENCES_truthy)
  with Some show ?thesis
    using WCAG_REFERENCES_None[of t l]
    by (simp add: createAccessibilityIssue_def getWcagReference_def getWcagUrl_def)
qed

section \<open>Promise.all\<close>


lemma promiseAll_all_fulfilled:
  assumes "\<forall>t\<in>set tasks. \<not> isl (snd t)"
  shows "promiseAll tasks = Inr (map (\<lambda>t. projr (snd t)) tasks)"
proof -
  from assms have "filter (\<lambda>t. isl (snd t)) tasks = []" by (simp add: filter_empty_conv)
  then show ?thesis by (simp add: promiseAll_def)
qed

lemma promiseAll_rejects:
  assumes "t \<in> set tasks" and "isl (snd t)"
  shows "\<exists>t'\<in>set tasks. isl (snd t') \<and> promiseAll tasks = Inl (projl (snd t'))"
proof -
  let ?rej = "filter (\<lambda>t. isl (snd t)) tasks"
  from assms have ne: "?rej \<noteq> []" by (auto simp: filter_empty_conv)
  then obtain r rs where rr: "?rej = r # rs" by (cases ?rej) auto
  from ne have "arg_min_list fst ?rej \<in> set ?rej" by (rule arg_min_list_in)
  then have "arg_min_list fst ?rej \<in> set tasks" "isl (snd (arg_min_list fst ?rej))" by auto
  moreover have "promiseAll tasks = Inl (projl (snd (arg_min_list fst ?rej)))"
    using rr by (simp add: promiseAll_def)
  ultimately show ?thesis by blast
qed

lemma promiseAll_Inr_iff:
  "promiseAll tasks = Inr rs \<longleftrightarrow>
     (\<forall>t\<in>set tasks. \<not> isl (snd t)) \<and> rs = map (\<lambda>t. projr (snd t)) tasks"
proof (cases "\<forall>t\<in>set tasks. \<not> isl (snd t)")
  case True
  then show ?thesis by (auto simp: promiseAll_all_fulfilled)
next
  case False
  then obtain t where "t \<in> set tasks" "isl (snd t)" by blast
  from promiseAll_rejects[OF this] False show ?thesis by auto
qed

lemma promiseAll_single_rejection:
  assumes "filter (\<lambda>t. isl (snd t)) tasks = [t]"
  shows "promiseAll tasks = Inl (projl (snd t))"
  using assms by (simp add: promiseAll_def)

lemma promiseAll_Inl_D:
  assumes "promiseAll tasks = Inl e"
  shows "\<exists>t\<in>set tasks. snd t = Inl e"
proof (cases "\<forall>t\<in>set tasks. \<not> isl (snd t)")
  case True
  with assms show ?thesis by (simp add: promiseAll_all_fulfilled)
next
  case False
  then obtain t where "t \<in> set tasks" "isl (snd t)" by blast
  from promiseAll_rejects[OF this] assms
  obtain t' where "t' \<in> set tasks" "isl (snd t')" "e = projl (snd t')" by auto
  then show ?thesis by (cases "snd t'") auto
qed

section \<open>Shape of a page check\<close>

lemma checkPage_Inr_D:
  assumes "checkPage cfg page u = Inr r"
  shows "goto page u = None" and "waitForAccessibilityTree page = Inr ()"
    and "\<forall>c\<in>set (enabledCheckers cfg). \<not> isl (check c page cfg)"
    and "PageHealthReport.issues r = checkerIssues cfg page"
    and "PageHealthReport.totalIssues r = length (PageHealthReport.issues r)"
    and "url r = u"
    and "score r = calculateScore (PageHealthReport.issues r)"
    and "wcagCompliance r =
           [A \<mapsto> isWcagCompliant (PageHealthReport.issues r) A,
            AA \<mapsto> isWcagCompliant (PageHealthReport.issues r) AA,
            AAA \<mapsto> isWcagCompliant (PageHealthReport.issues r) AAA]"
    and "issuesBySeverity r =
           [ERROR \<mapsto> length (filter (\<lambda>issue. severity issue = ERROR) (PageHealthReport.issues r)),
            WARNING \<mapsto> length (filter (\<lambda>issue. severity issue = WARNING) (PageHealthReport.issues r)),
            INFO \<mapsto> length (filter (\<lambda>issue. severity issue = INFO) (PageHealthReport.issues r))]"
    and "issuesByType r =
           foldl (\<lambda>acc ty. acc(ty \<mapsto> length (filter (\<lambda>issue. AccessibilityIssue.type issue = ty)
                                                (PageHealthReport.issues r))))
             Map.empty CheckType_values"
proof -
  from assms show g: "goto page u = None"
    by (auto simp: checkPage_def split: option.splits)
  from assms g show w: "waitForAccessibilityTree page = Inr ()"
    by (auto simp: checkPage_def split: sum.splits)
  let ?tasks = "map (\<lambda>checker. (settled page (Checker_type checker), check checker page cfg))
                  (enabledCheckers cfg)"
  from assms g w obtain results where res: "promiseAll ?tasks = Inr results"
    by (auto simp: checkPage_def split: sum.splits)
  then have ok: "\<forall>t\<in>set ?tasks. \<not> isl (snd t)" and
    results: "results = map (\<lambda>t. projr (snd t)) ?tasks"
    by (simp_all add: promiseAll_Inr_iff)
  from ok show "\<forall>c\<in>set (enabledCheckers cfg). \<not> isl (check c page cfg)" by simp
  have all: "concat (map CheckerResult.issues results) = checkerIssues cfg page"
    by (simp add: results checkerIssues_def comp_def)
  from assms g w res have r: "r = \<lparr> url = u,
                    totalIssues = length (checkerIssues cfg page),
                    issuesBySeverity = [ERROR \<mapsto> length (filter (\<lambda>issue. severity issue = ERROR) (checkerIssues cfg page)),
                  WARNING \<mapsto> length (filter (\<lambda>issue. severity issue = WARNING) (checkerIssues cfg page)),
                  INFO \<mapsto> length (filter (\<lambda>issue. severity issue = INFO) (checkerIssues cfg page))],
                    issuesByType = foldl (\<lambda>acc ty.
                          acc(ty \<mapsto> length (filter (\<lambda>issue. AccessibilityIssue.type issue = ty)
                                                (checkerIssues cfg page))))
                   Map.empty CheckType_values,
                    wcagCompliance = [A \<mapsto> isWcagCompliant (checkerIssues cfg page) A,
                  AA \<mapsto> isWcagCompliant (checkerIssues cfg page) AA,
                  AAA \<mapsto> isWcagCompliant (checkerIssues cfg page) AAA],
                    issues = checkerIssues cfg page,
                    score = calculateScore (checkerIssues cfg page) \<rparr>"
    by (simp add: checkPage_def Let_def all)
  show "PageHealthReport.issues r = checkerIssues cfg page" by (simp add: r)
  show "PageHealthReport.totalIssues r = length (PageHealthReport.issues r)" by (simp add: r)
  show "url r = u" by (simp add: r)
  show "score r = calculateScore (PageHealthReport.issues r)" by (simp add: r)
  show "wcagCompliance r =
           [A \<mapsto> isWcagCompliant (PageHealthReport.issues r) A,
            AA \<mapsto> isWcagCompliant (PageHealthReport.issues r) AA,
            AAA \<mapsto> isWcagCompliant (PageHealthReport.issues r) AAA]" by (simp add: r)
  show "issuesBySeverity r =
           [ERROR \<mapsto> length (filter (\<lambda>issue. severity issue = ERROR) (PageHealthReport.issues r)),
            WARNING \<mapsto> length (filter (\<lambda>issue. severity issue = WARNING) (PageHealthReport.issues r)),
            INFO \<mapsto> length (filter (\<lambda>issue. severity issue = INFO) (PageHealthReport.issues r))]"
    by (simp add: r)
  show "issuesByType r =
           foldl (\<lambda>acc ty. acc(ty \<mapsto> length (filter (\<lambda>issue. AccessibilityIssue.type issue = ty)
                                                (PageHealthReport.issues r))))
             Map.empty CheckType_values" by (simp add: r)
qed

lemma checkPage_succeeds:
  assumes "goto page u = None" and "waitForAccessibilityTree page = Inr ()"
    and "\<forall>c\<in>set (enabledCheckers cfg). \<not> isl (check c page cfg)"
  shows "\<exists>r. checkPage cfg page u = Inr r"
proof -
  let ?tasks = "map (\<lambda>checker. (settled page (Checker_type checker), check checker page cfg))
                  (enabledCheckers cfg)"
  from assms(3) have "\<forall>t\<in>set ?tasks. \<not> isl (snd t)" by simp
  then have "promiseAll ?tasks = Inr (map (\<lambda>t. projr (snd t)) ?tasks)"
    by (rule promiseAll_all_fulfilled)
  with assms(1,2) show ?thesis by (simp add: checkPage_def Let_def)
qed

section \<open>Page reports\<close>

lemmas check_defs =
  AltTextChecker_check_def ColorContrastChecker_check_def HeadingStructureChecker_check_def
  AriaAttributesChecker_check_def FormLabelsChecker_check_def

lemma enabledCheckers_DEFAULT: "enabledCheckers (DEFAULT_CONFIG\<lparr>wcagLevel := l\<rparr>) = ALL_CHECKERS"
  by (simp add: enabledCheckers_def DEFAULT_CONFIG_def CheckType_values_def ALL_CHECKERS_def)

lemma samplePage_checks:
  "AltTextChecker_check samplePage cfg = Inr \<lparr> type = ALT_TEXT, issues = [sampleAltIssue] \<rparr>"
  "ColorContrastChecker_check samplePage cfg
     = Inr \<lparr> type = COLOR_CONTRAST, issues = [sampleContrastIssue (HealthCheckConfig.wcagLevel cfg)] \<rparr>"
  "HeadingStructureChecker_check samplePage cfg = Inr \<lparr> type = HEADING_STRUCTURE, issues = [] \<rparr>"
  "AriaAttributesChecker_check samplePage cfg = Inr \<lparr> type = ARIA_ATTRIBUTES, issues = [] \<rparr>"
  "FormLabelsChecker_check samplePage cfg = Inr \<lparr> type = FORM_LABELS, issues = [] \<rparr>"
  by (simp_all add: check_defs samplePage_def sampleAltIssue_def sampleContrastIssue_def
        sampleFinding_def contrastFinding_def)

lemma samplePage_nav:
  "goto samplePage u = None" "waitForAccessibilityTree samplePage = Inr ()"
  by (simp_all add: samplePage_def waitForAccessibilityTree_def)

lemma samplePage_report:
  "\<exists>r. checkPage (DEFAULT_CONFIG\<lparr>wcagLevel := l\<rparr>) samplePage sampleUrl = Inr r
       \<and> PageHealthReport.issues r = [sampleAltIssue, sampleContrastIssue l]"
proof -
  let ?cfg = "DEFAULT_CONFIG\<lparr>wcagLevel := l\<rparr>"
  have "\<forall>c\<in>set (enabledCheckers ?cfg). \<not> isl (check c samplePage ?cfg)"
    by (simp add: enabledCheckers_DEFAULT ALL_CHECKERS_def samplePage_checks)
  from checkPage_succeeds[OF samplePage_nav this]
  obtain r where r: "checkPage ?cfg samplePage sampleUrl = Inr r" by blast
  have "PageHealthReport.issues r = checkerIssues ?cfg samplePage"
    by (rule checkPage_Inr_D(4)[OF r])
  also have "\<dots> = [sampleAltIssue, sampleContrastIssue l]"
    by (simp add: checkerIssues_def enabledCheckers_DEFAULT ALL_CHECKERS_def samplePage_checks)
  finally show ?thesis using r by blast
qed

lemma sample_issue_fields [simp]:
  "severity sampleAltIssue = ERROR" "AccessibilityIssue.wcagLevel sampleAltIssue = A"
  "AccessibilityIssue.type sampleAltIssue = ALT_TEXT"
  "severity (sampleContrastIssue l) = WARNING"
  "AccessibilityIssue.wcagLevel (sampleContrastIssue l) = l"
  "AccessibilityIssue.type (sampleContrastIssue l) = COLOR_CONTRAST"
  by (simp_all add: sampleAltIssue_def sampleContrastIssue_def)

lemma isWcagCompliant_iff:
  "isWcagCompliant xs L \<longleftrightarrow>
     \<not> (\<exists>i\<in>set xs. severity i = ERROR \<and> AccessibilityIssue.wcagLevel i = L)"
  by (auto simp: isWcagCompliant_def list_ex_iff)

text \<open>
  C3. For every issue list and level \<open>L\<close>, \<^verbatim>\<open>isWcagCompliant\<close> holds exactly when no
  issue has severity error and that level; the compliance map of a page report has, for
  each level, an entry that is true exactly when no issue of the report has severity
  error and that level; an issue that is not an error or is of another level does not
  change the verdict for \<open>L\<close>.
\<close>

theorem wcagCompliance_spec:
  "(isWcagCompliant xs L \<longleftrightarrow>
      \<not> (\<exists>i\<in>set xs. severity i = ERROR \<and> AccessibilityIssue.wcagLevel i = L))
   \<and> (checkPage cfg page u = Inr r \<longrightarrow>
        wcagCompliance r L =
          Some (\<not> (\<exists>i\<in>set (PageHealthReport.issues r).
                      severity i = ERROR \<and> AccessibilityIssue.wcagLevel i = L)))
   \<and> (severity i \<noteq> ERROR \<or> AccessibilityIssue.wcagLevel i \<noteq> L \<longrightarrow>
        isWcagCompliant (xs @ i # ys) L = isWcagCompliant (xs @ ys) L)"
proof (intro conjI impI)
  show "isWcagCompliant xs L \<longleftrightarrow>
      \<not> (\<exists>i\<in>set xs. severity i = ERROR \<and> AccessibilityIssue.wcagLevel i = L)"
    by (rule isWcagCompliant_iff)
next
  assume "checkPage cfg page u = Inr r"
  from checkPage_Inr_D(8)[OF this]
  show "wcagCompliance r L =
          Some (\<not> (\<exists>i\<in>set (PageHealthReport.issues r).
                      severity i = ERROR \<and> AccessibilityIssue.wcagLevel i = L))"
    by (cases L) (simp_all add: isWcagCompliant_iff)
next
  assume "severity i \<noteq> ERROR \<or> AccessibilityIssue.wcagLevel i \<noteq> L"
  then show "isWcagCompliant (xs @ i # ys) L = isWcagCompliant (xs @ ys) L"
    by (auto simp: isWcagCompliant_iff)
qed

theorem wcagCompliance_spec_witness:
  "\<exists>r. checkPage (DEFAULT_CONFIG\<lparr>wcagLevel := AA\<rparr>) samplePage sampleUrl = Inr r
     \<and> wcagCompliance r A = Some False
     \<and> wcagCompliance r AA = Some True
     \<and> wcagCompliance r AAA = Some True
     \<and> isWcagCompliant ([sampleAltIssue] @ sampleContrastIssue A # []) A
         = isWcagCompliant ([sampleAltIssue] @ []) A"
proof -
  from samplePage_report[of AA] obtain r where
    r: "checkPage (DEFAULT_CONFIG\<lparr>wcagLevel := AA\<rparr>) samplePage sampleUrl = Inr r" and
    i: "PageHealthReport.issues r = [sampleAltIssue, sampleContrastIssue AA]" by blast
  have c: "wcagCompliance r L =
          Some (\<not> (\<exists>i\<in>set (PageHealthReport.issues r).
                      severity i = ERROR \<and> AccessibilityIssue.wcagLevel i = L))" for L
    using wcagCompliance_spec[of "[sampleAltIssue]" L "DEFAULT_CONFIG\<lparr>wcagLevel := AA\<rparr>"
        samplePage sampleUrl r "sampleContrastIssue A" "[]"] r by blast
  have "isWcagCompliant ([sampleAltIssue] @ sampleContrastIssue A # []) A
         = isWcagCompliant ([sampleAltIssue] @ []) A"
    using wcagCompliance_spec[of "[sampleAltIssue]" A "DEFAULT_CONFIG\<lparr>wcagLevel := AA\<rparr>"
        samplePage sampleUrl r "sampleContrastIssue A" "[]"] by simp
  with r c[of A] c[of AA] c[of AAA] i show ?thesis by auto
qed

lemma CheckType_values_UNIV: "set CheckType_values = UNIV"
proof -
  have "t \<in> set CheckType_values" for t
    by (cases t) (simp_all add: CheckType_values_def)
  then show ?thesis by blast
qed

lemma byType_lookup:
  "foldl (\<lambda>acc ty. acc(ty \<mapsto> length (filter (\<lambda>issue. AccessibilityIssue.type issue = ty) xs)))
     Map.empty CheckType_values t
   = Some (length (filter (\<lambda>issue. AccessibilityIssue.type issue = t) xs))"
  by (cases t) (simp_all add: CheckType_values_def)

lemma byType_sum:
  "(\<Sum>t\<leftarrow>CheckType_values. length (filter (\<lambda>issue. AccessibilityIssue.type issue = t) xs))
   = length xs"
proof (induction xs)
  case Nil
  show ?case by (simp add: CheckType_values_def)
next
  case (Cons x xs)
  then show ?case
    by (cases "AccessibilityIssue.type x") (simp_all add: CheckType_values_def)
qed

lemma bySeverity_sum:
  "length (filter (\<lambda>issue. severity issue = ERROR) xs)
   + length (filter (\<lambda>issue. severity issue = WARNING) xs)
   + length (filter (\<lambda>issue. severity issue = INFO) xs) = length xs"
proof (induction xs)
  case Nil
  show ?case by simp
next
  case (Cons x xs)
  then show ?case by (cases "severity x") simp_all
qed

text \<open>
  C7. In a report produced by a page check, the by-type record has an entry for each of
  the 8 checker types, each the number of issues of that type (0 when there is none);
  the 8 type counts add up to \<open>totalIssues\<close>; the by-severity record has an entry for
  each of the 3 severities and they add up to \<open>totalIssues\<close>; \<open>totalIssues\<close> is the
  length of the issue sequence.
\<close>

theorem report_counts:
  assumes "checkPage cfg page u = Inr r"
  shows "dom (issuesByType r) = UNIV
    \<and> set CheckType_values = UNIV \<and> distinct CheckType_values \<and> length CheckType_values = 8
    \<and> issuesByType r t
        = Some (length (filter (\<lambda>issue. AccessibilityIssue.type issue = t)
                          (PageHealthReport.issues r)))
    \<and> (\<Sum>t\<leftarrow>CheckType_values. the (issuesByType r t)) = PageHealthReport.totalIssues r
    \<and> dom (issuesBySeverity r) = UNIV
    \<and> issuesBySeverity r s
        = Some (length (filter (\<lambda>issue. severity issue = s) (PageHealthReport.issues r)))
    \<and> (\<Sum>s\<leftarrow>[ERROR, WARNING, INFO]. the (issuesBySeverity r s)) = PageHealthReport.totalIssues r
    \<and> PageHealthReport.totalIssues r = length (PageHealthReport.issues r)"
proof -
  note D = checkPage_Inr_D[OF assms]
  have ty: "issuesByType r t
        = Some (length (filter (\<lambda>issue. AccessibilityIssue.type issue = t)
                          (PageHealthReport.issues r)))" for t
    by (simp only: D(10) byType_lookup)
  have sv: "issuesBySeverity r s
        = Some (length (filter (\<lambda>issue. severity issue = s) (PageHealthReport.issues r)))" for s
    by (cases s) (simp_all add: D(9))
  have d1: "dom (issuesByType r) = UNIV" using ty by (auto simp: dom_def)
  have d2: "dom (issuesBySeverity r) = UNIV" using sv by (auto simp: dom_def)
  have s1: "(\<Sum>t\<leftarrow>CheckType_values. the (issuesByType r t)) = PageHealthReport.totalIssues r"
    by (simp add: ty byType_sum D(5))
  have s2: "(\<Sum>s\<leftarrow>[ERROR, WARNING, INFO]. the (issuesBySeverity r s))
              = PageHealthReport.totalIssues r"
    using bySeverity_sum[of "PageHealthReport.issues r"] by (simp add: sv D(5))
  have l: "distinct CheckType_values" "length CheckType_values = 8"
    by (simp_all add: CheckType_values_def)
  show ?thesis
    using d1 d2 s1 s2 l ty sv D(5) CheckType_values_UNIV by blast
qed

theorem report_counts_witness:
  "\<exists>r. checkPage (DEFAULT_CONFIG\<lparr>wcagLevel := AA\<rparr>) samplePage sampleUrl = Inr r
     \<and> PageHealthReport.totalIssues r = 2
     \<and> dom (issuesByType r) = UNIV
     \<and> issuesByType r ALT_TEXT = Some 1
     \<and> issuesByType r LANDMARK_REGIONS = Some 0
     \<and> (\<Sum>t\<leftarrow>CheckType_values. the (issuesByType r t)) = 2
     \<and> issuesBySeverity r ERROR = Some 1
     \<and> (\<Sum>s\<leftarrow>[ERROR, WARNING, INFO]. the (issuesBySeverity r s)) = 2"
proof -
  from samplePage_report[of AA] obtain r where
    r: "checkPage (DEFAULT_CONFIG\<lparr>wcagLevel := AA\<rparr>) samplePage sampleUrl = Inr r" and
    i: "PageHealthReport.issues r = [sampleAltIssue, sampleContrastIssue AA]" by blast
  note c = report_counts[OF r]
  from c[of ALT_TEXT ERROR] c[of LANDMARK_REGIONS ERROR] i r show ?thesis
    by (intro exI[of _ r]) simp
qed

lemma check_issue_level:
  assumes "check c page cfg = Inr res" and "i \<in> set (CheckerResult.issues res)"
  shows "AccessibilityIssue.wcagLevel i
           = (if c = ColorContrastChecker then HealthCheckConfig.wcagLevel cfg else A)"
    and "AccessibilityIssue.type i = Checker_type c"
  using assms by (cases c; auto simp: check_defs split: sum.splits)+

lemma check_wcagLevel_irrelevant:
  "c \<noteq> ColorContrastChecker \<Longrightarrow> check c page (cfg\<lparr>wcagLevel := l\<rparr>) = check c page cfg"
  by (cases c) (simp_all add: check_defs)

lemma checkerIssues_level:
  assumes ok: "\<forall>c\<in>set (enabledCheckers cfg). \<not> isl (check c page cfg)"
    and i: "i \<in> set (checkerIssues cfg page)"
  shows "AccessibilityIssue.wcagLevel i
           = (if AccessibilityIssue.type i = COLOR_CONTRAST
              then HealthCheckConfig.wcagLevel cfg else A)"
proof -
  from i obtain c where c: "c \<in> set (enabledCheckers cfg)"
    and ic: "i \<in> set (CheckerResult.issues (projr (check c page cfg)))"
    by (auto simp: checkerIssues_def)
  from ok c obtain res where res: "check c page cfg = Inr res"
    by (cases "check c page cfg") auto
  with ic have "i \<in> set (CheckerResult.issues res)" by simp
  from check_issue_level[OF res this] show ?thesis by (cases c) simp_all
qed

text \<open>
  C9. Every issue a checker other than the color-contrast checker returns has level A,
  whatever the configuration; every issue the color-contrast checker returns has the
  configured level; changing the configured level does not change what the other
  checkers return; so in a page report an issue has the configured level if it is a
  color-contrast issue and level A otherwise.
\<close>

theorem checker_wcagLevel:
  "(check c page cfg = Inr res \<longrightarrow>
      (\<forall>i\<in>set (CheckerResult.issues res).
         AccessibilityIssue.wcagLevel i
           = (if c = ColorContrastChecker then HealthCheckConfig.wcagLevel cfg else A)))
   \<and> (c \<noteq> ColorContrastChecker \<longrightarrow>
        check c page (cfg\<lparr>wcagLevel := l\<rparr>) = check c page cfg)
   \<and> (checkPage cfg page u = Inr r \<longrightarrow>
        (\<forall>i\<in>set (PageHealthReport.issues r).
           AccessibilityIssue.wcagLevel i
             = (if AccessibilityIssue.type i = COLOR_CONTRAST
                then HealthCheckConfig.wcagLevel cfg else A)))"
proof (intro conjI impI ballI)
  fix i assume "check c page cfg = Inr res" "i \<in> set (CheckerResult.issues res)"
  then show "AccessibilityIssue.wcagLevel i
           = (if c = ColorContrastChecker then HealthCheckConfig.wcagLevel cfg else A)"
    by (rule check_issue_level)
next
  assume "c \<noteq> ColorContrastChecker"
  then show "check c page (cfg\<lparr>wcagLevel := l\<rparr>) = check c page cfg"
    by (rule check_wcagLevel_irrelevant)
next
  fix i assume r: "checkPage cfg page u = Inr r" and i: "i \<in> set (PageHealthReport.issues r)"
  from i have "i \<in> set (checkerIssues cfg page)" by (simp add: checkPage_Inr_D(4)[OF r])
  with checkPage_Inr_D(3)[OF r] show "AccessibilityIssue.wcagLevel i
             = (if AccessibilityIssue.type i = COLOR_CONTRAST
                then HealthCheckConfig.wcagLevel cfg else A)"
    by (rule checkerIssues_level)
qed

theorem checker_wcagLevel_witness:
  "check ColorContrastChecker samplePage (DEFAULT_CONFIG\<lparr>wcagLevel := AAA\<rparr>)
     = Inr \<lparr> type = COLOR_CONTRAST, issues = [sampleContrastIssue AAA] \<rparr>
   \<and> AccessibilityIssue.wcagLevel (sampleContrastIssue AAA) = AAA
   \<and> check AltTextChecker samplePage (DEFAULT_CONFIG\<lparr>wcagLevel := AAA\<rparr>)
       = check AltTextChecker samplePage DEFAULT_CONFIG
   \<and> (\<exists>r. checkPage (DEFAULT_CONFIG\<lparr>wcagLevel := AAA\<rparr>) samplePage sampleUrl = Inr r
          \<and> map AccessibilityIssue.wcagLevel (PageHealthReport.issues r) = [A, AAA])"
proof -
  let ?cfg = "DEFAULT_CONFIG\<lparr>wcagLevel := AAA\<rparr>"
  let ?res = "\<lparr> type = COLOR_CONTRAST, issues = [sampleContrastIssue AAA] \<rparr>"
  from samplePage_report[of AAA] obtain r where
    r: "checkPage ?cfg samplePage sampleUrl = Inr r" and
    i: "PageHealthReport.issues r = [sampleAltIssue, sampleContrastIssue AAA]" by blast
  have c: "check ColorContrastChecker samplePage ?cfg = Inr ?res"
    by (simp add: samplePage_checks)
  note t1 = checker_wcagLevel[of ColorContrastChecker samplePage ?cfg ?res AAA sampleUrl r]
  note t2 = checker_wcagLevel[of AltTextChecker samplePage DEFAULT_CONFIG ?res AAA sampleUrl r]
  from t1 c have "AccessibilityIssue.wcagLevel (sampleContrastIssue AAA) = AAA" by simp
  moreover from t2 have "check AltTextChecker samplePage ?cfg
       = check AltTextChecker samplePage DEFAULT_CONFIG" by simp
  moreover from t1 r i
  have "map AccessibilityIssue.wcagLevel (PageHealthReport.issues r) = [A, AAA]" by simp
  ultimately show ?thesis using c r by (intro conjI exI[of _ r]) simp_all
qed

lemma checkPage_cong_enabled:
  assumes "goto page' u = goto page u"
    and "waitForAccessibilityTree page' = waitForAccessibilityTree page"
    and "\<forall>c\<in>set (enabledCheckers cfg).
           check c page' cfg = check c page cfg
           \<and> settled page' (Checker_type c) = settled page (Checker_type c)"
  shows "checkPage cfg page' u = checkPage cfg page u"
proof -
  have "map (\<lambda>checker. (settled page' (Checker_type checker), check checker page' cfg))
          (enabledCheckers cfg)
        = map (\<lambda>checker. (settled page (Checker_type checker), check checker page cfg))
          (enabledCheckers cfg)"
    using assms(3) by (intro map_cong) auto
  then show ?thesis by (simp only: checkPage_def assms(1,2))
qed

text \<open>
  C5. The checkers a page check runs are exactly the registry entries whose type is in
  \<open>enabled\<close> and not in \<open>disabled\<close>; no checker of a disabled type is among them, also
  when the type is in \<open>enabled\<close> as well. The page check shows it: its outcome does not
  depend on what a checker of a disabled type would do on the page; once the page is
  loaded and stable it succeeds exactly when none of the checkers in \<open>enabled\<close> and not
  in \<open>disabled\<close> throws; and its issues are those of exactly these checkers, in registry
  order, so that no reported issue has a disabled type.
\<close>

theorem disabled_wins:
  "set (enabledCheckers cfg)
     = {c \<in> set ALL_CHECKERS. Checker_type c \<in> set (enabled (checks cfg))
                              \<and> Checker_type c \<notin> set (disabled (checks cfg))}
   \<and> (t \<in> set (disabled (checks cfg)) \<longrightarrow> t \<notin> Checker_type ` set (enabledCheckers cfg))
   \<and> (goto page' u = goto page u
        \<and> waitForAccessibilityTree page' = waitForAccessibilityTree page
        \<and> (\<forall>c\<in>set ALL_CHECKERS.
              Checker_type c \<in> set (disabled (checks cfg))
              \<or> check c page' cfg = check c page cfg
                \<and> settled page' (Checker_type c) = settled page (Checker_type c))
       \<longrightarrow> checkPage cfg page' u = checkPage cfg page u)
   \<and> (goto page u = None \<and> waitForAccessibilityTree page = Inr () \<longrightarrow>
        ((\<exists>r. checkPage cfg page u = Inr r) \<longleftrightarrow>
           (\<forall>c\<in>set ALL_CHECKERS.
              Checker_type c \<in> set (enabled (checks cfg))
              \<and> Checker_type c \<notin> set (disabled (checks cfg))
              \<longrightarrow> \<not> isl (check c page cfg))))
   \<and> (checkPage cfg page u = Inr r \<longrightarrow>
        PageHealthReport.issues r
          = concat (map (\<lambda>c. CheckerResult.issues (projr (check c page cfg)))
                      (filter (\<lambda>c. Checker_type c \<in> set (enabled (checks cfg))
                                   \<and> Checker_type c \<notin> set (disabled (checks cfg)))
                         ALL_CHECKERS))
        \<and> (\<forall>i\<in>set (PageHealthReport.issues r).
              AccessibilityIssue.type i \<in> set (enabled (checks cfg))
              \<and> AccessibilityIssue.type i \<notin> set (disabled (checks cfg))))"
proof (intro conjI impI)
  show "set (enabledCheckers cfg)
     = {c \<in> set ALL_CHECKERS. Checker_type c \<in> set (enabled (checks cfg))
                              \<and> Checker_type c \<notin> set (disabled (checks cfg))}"
    by (auto simp: enabledCheckers_def)
next
  assume "t \<in> set (disabled (checks cfg))"
  then show "t \<notin> Checker_type ` set (enabledCheckers cfg)"
    by (auto simp: enabledCheckers_def)
next
  assume a: "goto page' u = goto page u
        \<and> waitForAccessibilityTree page' = waitForAccessibilityTree page
        \<and> (\<forall>c\<in>set ALL_CHECKERS.
              Checker_type c \<in> set (disabled (checks cfg))
              \<or> check c page' cfg = check c page cfg
                \<and> settled page' (Checker_type c) = settled page (Checker_type c))"
  then have "\<forall>c\<in>set (enabledCheckers cfg).
           check c page' cfg = check c page cfg
           \<and> settled page' (Checker_type c) = settled page (Checker_type c)"
    by (auto simp: enabledCheckers_def)
  with a show "checkPage cfg page' u = checkPage cfg page u"
    by (intro checkPage_cong_enabled) auto
next
  assume nav: "goto page u = None \<and> waitForAccessibilityTree page = Inr ()"
  have "(\<exists>r. checkPage cfg page u = Inr r)
          \<longleftrightarrow> (\<forall>c\<in>set (enabledCheckers cfg). \<not> isl (check c page cfg))"
  proof
    assume "\<exists>r. checkPage cfg page u = Inr r"
    then obtain r where "checkPage cfg page u = Inr r" ..
    then show "\<forall>c\<in>set (enabledCheckers cfg). \<not> isl (check c page cfg)"
      by (rule checkPage_Inr_D(3))
  next
    assume "\<forall>c\<in>set (enabledCheckers cfg). \<not> isl (check c page cfg)"
    with nav show "\<exists>r. checkPage cfg page u = Inr r"
      by (intro checkPage_succeeds) simp_all
  qed
  then show "(\<exists>r. checkPage cfg page u = Inr r) \<longleftrightarrow>
           (\<forall>c\<in>set ALL_CHECKERS.
              Checker_type c \<in> set (enabled (checks cfg))
              \<and> Checker_type c \<notin> set (disabled (checks cfg))
              \<longrightarrow> \<not> isl (check c page cfg))"
    by (auto simp: enabledCheckers_def)
next
  assume r: "checkPage cfg page u = Inr r"
  from checkPage_Inr_D(4)[OF r]
  show "PageHealthReport.issues r
          = concat (map (\<lambda>c. CheckerResult.issues (projr (check c page cfg)))
                      (filter (\<lambda>c. Checker_type c \<in> set (enabled (checks cfg))
                                   \<and> Checker_type c \<notin> set (disabled (checks cfg)))
                         ALL_CHECKERS))"
    by (simp add: checkerIssues_def enabledCheckers_def)
  show "\<forall>i\<in>set (PageHealthReport.issues r).
              AccessibilityIssue.type i \<in> set (enabled (checks cfg))
              \<and> AccessibilityIssue.type i \<notin> set (disabled (checks cfg))"
  proof
    fix i assume "i \<in> set (PageHealthReport.issues r)"
    then have "i \<in> set (checkerIssues cfg page)" by (simp add: checkPage_Inr_D(4)[OF r])
    then obtain c where c: "c \<in> set (enabledCheckers cfg)"
      and ic: "i \<in> set (CheckerResult.issues (projr (check c page cfg)))"
      by (auto simp: checkerIssues_def)
    from checkPage_Inr_D(3)[OF r] c obtain res where res: "check c page cfg = Inr res"
      by (cases "check c page cfg") auto
    with ic have "i \<in> set (CheckerResult.issues res)" by simp
    from check_issue_level(2)[OF res this] c
    show "AccessibilityIssue.type i \<in> set (enabled (checks cfg))
              \<and> AccessibilityIssue.type i \<notin> set (disabled (checks cfg))"
      by (simp add: enabledCheckers_def)
  qed
qed

lemma throwingPage_checks:
  "AltTextChecker_check throwingPage cfg = Inl (Thrown ''Error: page.evaluate: Target closed'')"
  "ColorContrastChecker_check throwingPage cfg = ColorContrastChecker_check samplePage cfg"
  "HeadingStructureChecker_check throwingPage cfg = HeadingStructureChecker_check samplePage cfg"
  "AriaAttributesChecker_check throwingPage cfg = AriaAttributesChecker_check samplePage cfg"
  "FormLabelsChecker_check throwingPage cfg = FormLabelsChecker_check samplePage cfg"
  by (simp_all add: check_defs throwingPage_def)

lemma throwingPage_nav:
  "goto throwingPage u = None" "waitForAccessibilityTree throwingPage = Inr ()"
  "settled throwingPage t = settled samplePage t"
  by (simp_all add: throwingPage_def samplePage_def waitForAccessibilityTree_def)

lemma enabledCheckers_conflict:
  "enabledCheckers conflictConfig
     = [ColorContrastChecker, HeadingStructureChecker, AriaAttributesChecker, FormLabelsChecker]"
  by (simp add: enabledCheckers_def conflictConfig_def DEFAULT_CONFIG_def CheckType_values_def
        ALL_CHECKERS_def)

theorem disabled_wins_witness:
  "ALT_TEXT \<in> set (enabled (checks conflictConfig))
   \<and> ALT_TEXT \<in> set (disabled (checks conflictConfig))
   \<and> enabledCheckers conflictConfig
       = [ColorContrastChecker, HeadingStructureChecker, AriaAttributesChecker, FormLabelsChecker]
   \<and> ALT_TEXT \<notin> Checker_type ` set (enabledCheckers conflictConfig)
   \<and> isl (check AltTextChecker throwingPage conflictConfig)
   \<and> checkPage conflictConfig throwingPage sampleUrl = checkPage conflictConfig samplePage sampleUrl
   \<and> (\<exists>r. checkPage conflictConfig throwingPage sampleUrl = Inr r
          \<and> PageHealthReport.issues r = [sampleContrastIssue AA])
   \<and> \<not> (\<exists>r. checkPage DEFAULT_CONFIG throwingPage sampleUrl = Inr r)"
proof -
  note t = disabled_wins[where cfg = conflictConfig and t = ALT_TEXT and page' = throwingPage
      and u = sampleUrl and page = samplePage]
  note t2 = t[THEN conjunct2, THEN conjunct1]
  note t3 = t[THEN conjunct2, THEN conjunct2, THEN conjunct1]
  have m: "ALT_TEXT \<in> set (enabled (checks conflictConfig))"
    "ALT_TEXT \<in> set (disabled (checks conflictConfig))"
    by (simp_all add: conflictConfig_def CheckType_values_def)
  from t2 m(2) have n: "ALT_TEXT \<notin> Checker_type ` set (enabledCheckers conflictConfig)"
    by (rule mp)
  have "goto throwingPage sampleUrl = goto samplePage sampleUrl
        \<and> waitForAccessibilityTree throwingPage = waitForAccessibilityTree samplePage
        \<and> (\<forall>c\<in>set ALL_CHECKERS.
              Checker_type c \<in> set (disabled (checks conflictConfig))
              \<or> check c throwingPage conflictConfig = check c samplePage conflictConfig
                \<and> settled throwingPage (Checker_type c) = settled samplePage (Checker_type c))"
    by (simp add: ALL_CHECKERS_def throwingPage_checks throwingPage_nav samplePage_nav
          conflictConfig_def)
  with t3 have e: "checkPage conflictConfig throwingPage sampleUrl
                    = checkPage conflictConfig samplePage sampleUrl"
    by (rule mp)
  note s = disabled_wins[where cfg = conflictConfig and page = throwingPage and u = sampleUrl]
  note s4 = s[THEN conjunct2, THEN conjunct2, THEN conjunct2, THEN conjunct1]
  have ok: "\<forall>c\<in>set ALL_CHECKERS.
              Checker_type c \<in> set (enabled (checks conflictConfig))
              \<and> Checker_type c \<notin> set (disabled (checks conflictConfig))
              \<longrightarrow> \<not> isl (check c throwingPage conflictConfig)"
    by (simp add: ALL_CHECKERS_def conflictConfig_def throwingPage_checks samplePage_checks)
  from s4 throwingPage_nav(1,2)
  have "(\<exists>r. checkPage conflictConfig throwingPage sampleUrl = Inr r) \<longleftrightarrow>
           (\<forall>c\<in>set ALL_CHECKERS.
              Checker_type c \<in> set (enabled (checks conflictConfig))
              \<and> Checker_type c \<notin> set (disabled (checks conflictConfig))
              \<longrightarrow> \<not> isl (check c throwingPage conflictConfig))"
    by simp
  with ok obtain r where r: "checkPage conflictConfig throwingPage sampleUrl = Inr r"
    by (elim iffE impE exE) auto
  from disabled_wins[where cfg = conflictConfig and page = throwingPage and u = sampleUrl
      and r = r, THEN conjunct2, THEN conjunct2, THEN conjunct2, THEN conjunct2] r
  have "PageHealthReport.issues r
          = concat (map (\<lambda>c. CheckerResult.issues (projr (check c throwingPage conflictConfig)))
                      (filter (\<lambda>c. Checker_type c \<in> set (enabled (checks conflictConfig))
                                   \<and> Checker_type c \<notin> set (disabled (checks conflictConfig)))
                         ALL_CHECKERS))"
    by (elim impE conjE) assumption
  also have "\<dots> = [sampleContrastIssue AA]"
    by (simp add: ALL_CHECKERS_def conflictConfig_def CheckType_values_def throwingPage_checks
          samplePage_checks DEFAULT_CONFIG_def)
  finally have i: "PageHealthReport.issues r = [sampleContrastIssue AA]" .
  note d = disabled_wins[where cfg = DEFAULT_CONFIG and page = throwingPage and u = sampleUrl]
  note d4 = d[THEN conjunct2, THEN conjunct2, THEN conjunct2, THEN conjunct1]
  have bad: "\<not> (\<forall>c\<in>set ALL_CHECKERS.
              Checker_type c \<in> set (enabled (checks DEFAULT_CONFIG))
              \<and> Checker_type c \<notin> set (disabled (checks DEFAULT_CONFIG))
              \<longrightarrow> \<not> isl (check c throwingPage DEFAULT_CONFIG))"
    by (simp add: ALL_CHECKERS_def DEFAULT_CONFIG_def CheckType_values_def throwingPage_checks)
  from d4 throwingPage_nav(1,2)
  have "(\<exists>r. checkPage DEFAULT_CONFIG throwingPage sampleUrl = Inr r) \<longleftrightarrow>
           (\<forall>c\<in>set ALL_CHECKERS.
              Checker_type c \<in> set (enabled (checks DEFAULT_CONFIG))
              \<and> Checker_type c \<notin> set (disabled (checks DEFAULT_CONFIG))
              \<longrightarrow> \<not> isl (check c throwingPage DEFAULT_CONFIG))"
    by simp
  with bad have x: "\<not> (\<exists>r. checkPage DEFAULT_CONFIG throwingPage sampleUrl = Inr r)"
    by (simp only: simp_thms)
  have a: "isl (check AltTextChecker throwingPage conflictConfig)"
    by (simp add: throwingPage_checks)
  from r i have ri: "\<exists>r. checkPage conflictConfig throwingPage sampleUrl = Inr r
          \<and> PageHealthReport.issues r = [sampleContrastIssue AA]" by blast
  from m n e ri x a enabledCheckers_conflict show ?thesis by (intro conjI)
qed

lemma distinct_enabledCheckers: "distinct (enabledCheckers cfg)"
  by (simp add: enabledCheckers_def ALL_CHECKERS_def)

lemma checkPage_single_throw:
  assumes "goto page u = None" and "waitForAccessibilityTree page = Inr ()"
    and "filter (\<lambda>c. isl (check c page cfg)) (enabledCheckers cfg) = [c]"
    and "check c page cfg = Inl e"
  shows "checkPage cfg page u = Inl e"
proof -
  let ?f = "\<lambda>checker. (settled page (Checker_type checker), check checker page cfg)"
  have "filter (\<lambda>t. isl (snd t)) (map ?f (enabledCheckers cfg))
          = map ?f (filter (\<lambda>c. isl (check c page cfg)) (enabledCheckers cfg))"
    by (simp add: filter_map comp_def)
  also have "\<dots> = [?f c]" by (simp add: assms(3))
  finally have "promiseAll (map ?f (enabledCheckers cfg)) = Inl (projl (snd (?f c)))"
    by (rule promiseAll_single_rejection)
  with assms(1,2,4) show ?thesis by (simp add: checkPage_def)
qed

lemma checkPage_some_throw:
  assumes "goto page u = None" and "waitForAccessibilityTree page = Inr ()"
    and "c \<in> set (enabledCheckers cfg)" and "isl (check c page cfg)"
  shows "\<exists>e. checkPage cfg page u = Inl e
             \<and> (\<exists>c'\<in>set (enabledCheckers cfg). check c' page cfg = Inl e)"
proof -
  let ?f = "\<lambda>checker. (settled page (Checker_type checker), check checker page cfg)"
  from assms(3,4) have "?f c \<in> set (map ?f (enabledCheckers cfg))" "isl (snd (?f c))"
    by simp_all
  from promiseAll_rejects[OF this] obtain t where
    t: "t \<in> set (map ?f (enabledCheckers cfg))" "isl (snd t)"
      "promiseAll (map ?f (enabledCheckers cfg)) = Inl (projl (snd t))" by blast
  from t(1) obtain c' where c': "c' \<in> set (enabledCheckers cfg)" "t = ?f c'" by auto
  with t(2) have "check c' page cfg = Inl (projl (snd t))" by (cases "check c' page cfg") auto
  moreover from t(3) assms(1,2) have "checkPage cfg page u = Inl (projl (snd t))"
    by (simp add: checkPage_def)
  ultimately show ?thesis using c'(1) by blast
qed

text \<open>
  C2, as the code has it. After a successful navigation and stabilisation, a throwing
  checker is not isolated: when exactly one enabled checker throws, the page check fails
  with that checker's error; when any enabled checker throws, the page check fails with
  the error of one of them; the page check succeeds exactly when every enabled checker
  returns, and its issues are then those of all enabled checkers in registry order.
\<close>

theorem checker_failure_propagates:
  assumes "goto page u = None" and "waitForAccessibilityTree page = Inr ()"
  shows "(filter (\<lambda>c. isl (check c page cfg)) (enabledCheckers cfg) = [c]
            \<and> check c page cfg = Inl e \<longrightarrow> checkPage cfg page u = Inl e)
     \<and> ((\<exists>c\<in>set (enabledCheckers cfg). isl (check c page cfg)) \<longrightarrow>
          (\<exists>e'. checkPage cfg page u = Inl e'
                \<and> (\<exists>c'\<in>set (enabledCheckers cfg). check c' page cfg = Inl e')))
     \<and> ((\<exists>r. checkPage cfg page u = Inr r)
          \<longleftrightarrow> (\<forall>c\<in>set (enabledCheckers cfg). \<not> isl (check c page cfg)))
     \<and> (checkPage cfg page u = Inr r \<longrightarrow> PageHealthReport.issues r = checkerIssues cfg page)"
proof (intro conjI impI)
  assume "filter (\<lambda>c. isl (check c page cfg)) (enabledCheckers cfg) = [c]
            \<and> check c page cfg = Inl e"
  with assms show "checkPage cfg page u = Inl e" by (intro checkPage_single_throw) auto
next
  assume "\<exists>c\<in>set (enabledCheckers cfg). isl (check c page cfg)"
  with assms show "\<exists>e'. checkPage cfg page u = Inl e'
                \<and> (\<exists>c'\<in>set (enabledCheckers cfg). check c' page cfg = Inl e')"
    using checkPage_some_throw by blast
next
  show "(\<exists>r. checkPage cfg page u = Inr r)
          \<longleftrightarrow> (\<forall>c\<in>set (enabledCheckers cfg). \<not> isl (check c page cfg))"
    using checkPage_succeeds[OF assms] checkPage_Inr_D(3) by blast
next
  assume "checkPage cfg page u = Inr r"
  then show "PageHealthReport.issues r = checkerIssues cfg page" by (rule checkPage_Inr_D(4))
qed

lemma throwingPage_rejected:
  "filter (\<lambda>c. isl (check c throwingPage DEFAULT_CONFIG)) (enabledCheckers DEFAULT_CONFIG)
     = [AltTextChecker]"
  using enabledCheckers_DEFAULT[of AA]
  by (simp add: DEFAULT_CONFIG_def ALL_CHECKERS_def throwingPage_checks samplePage_checks)

theorem checker_failure_propagates_witness:
  "goto throwingPage sampleUrl = None \<and> waitForAccessibilityTree throwingPage = Inr ()
   \<and> filter (\<lambda>c. isl (check c throwingPage DEFAULT_CONFIG)) (enabledCheckers DEFAULT_CONFIG)
       = [AltTextChecker]
   \<and> check AltTextChecker throwingPage DEFAULT_CONFIG
       = Inl (Thrown ''Error: page.evaluate: Target closed'')
   \<and> checkPage DEFAULT_CONFIG throwingPage sampleUrl
       = Inl (Thrown ''Error: page.evaluate: Target closed'')"
proof -
  have c: "check AltTextChecker throwingPage DEFAULT_CONFIG
       = Inl (Thrown ''Error: page.evaluate: Target closed'')"
    by (simp add: throwingPage_checks)
  from checker_failure_propagates[OF throwingPage_nav(1,2), of DEFAULT_CONFIG AltTextChecker
      "Thrown ''Error: page.evaluate: Target closed''" sampleUrl]
    throwingPage_rejected c
  have "checkPage DEFAULT_CONFIG throwingPage sampleUrl
       = Inl (Thrown ''Error: page.evaluate: Target closed'')" by blast
  with throwingPage_nav throwingPage_rejected c show ?thesis by simp
qed

theorem checker_failure_not_isolated:
  "filter (\<lambda>c. isl (check c throwingPage DEFAULT_CONFIG)) (enabledCheckers DEFAULT_CONFIG)
     = [AltTextChecker]
   \<and> \<not> (\<exists>r. checkPage DEFAULT_CONFIG throwingPage sampleUrl = Inr r)"
proof -
  have "check AltTextChecker throwingPage DEFAULT_CONFIG
       = Inl (Thrown ''Error: page.evaluate: Target closed'')"
    by (simp add: throwingPage_checks)
  with throwingPage_rejected throwingPage_nav
  have "checkPage DEFAULT_CONFIG throwingPage sampleUrl
       = Inl (Thrown ''Error: page.evaluate: Target closed'')"
    by (intro checkPage_single_throw) auto
  with throwingPage_rejected show ?thesis by simp
qed

section \<open>Batches\<close>

lemma consecutiveBatches_Nil [simp]: "consecutiveBatches n [] = []"
  by (simp add: consecutiveBatches.simps)

lemma consecutiveBatches_step:
  "0 < n \<Longrightarrow> xs \<noteq> [] \<Longrightarrow>
   consecutiveBatches n xs = take n xs # consecutiveBatches n (drop n xs)"
  by (subst consecutiveBatches.simps) simp

lemma concat_consecutiveBatches: "0 < n \<Longrightarrow> concat (consecutiveBatches n xs) = xs"
proof (induction n xs rule: consecutiveBatches.induct)
  case (1 n xs)
  show ?case
  proof (cases "xs = []")
    case True
    then show ?thesis by simp
  next
    case False
    with 1 show ?thesis by (simp add: consecutiveBatches_step)
  qed
qed



lemma Math_trunc_nonneg: "0 \<le> x \<Longrightarrow> Math_trunc x = \<lfloor>x\<rfloor>"
  by (simp add: Math_trunc_def)

lemma relativeIndex_nonneg:
  assumes "0 \<le> x"
  shows "relativeIndex len (Finite x) = min (nat \<lfloor>x\<rfloor>) len"
proof -
  from assms have "0 \<le> \<lfloor>x\<rfloor>" by simp
  then show ?thesis by (simp add: Math_trunc_nonneg[OF assms] Let_def min_def) linarith
qed

lemma slice_forward:
  assumes "0 \<le> i" and "0 \<le> c"
  shows "slice array (Finite i) (Finite (i + c))
           = take (min (nat \<lfloor>i + c\<rfloor>) (length array) - min (nat \<lfloor>i\<rfloor>) (length array))
               (drop (min (nat \<lfloor>i\<rfloor>) (length array)) array)"
proof -
  from assms have "0 \<le> i + c" by simp
  from relativeIndex_nonneg[OF this] relativeIndex_nonneg[OF assms(1)]
  show ?thesis by (simp add: slice_def Let_def del: relativeIndex.simps)
qed

text \<open>Any finite size of at least 1.\<close>

lemma chunkLoop_finite:
  assumes c: "1 \<le> c" and i: "0 \<le> i"
  shows "\<exists>rest. chunkLoop array (Finite c) (Finite i) chunks = Some (chunks @ rest)
            \<and> concat rest = drop (nat \<lfloor>i\<rfloor>) array \<and> (\<forall>ch\<in>set rest. ch \<noteq> [])"
  using i
proof (induction "length array - nat \<lfloor>i\<rfloor>" arbitrary: i chunks rule: less_induct)
  case less
  let ?len = "length array"
  let ?k = "nat \<lfloor>i\<rfloor>"
  let ?f = "nat \<lfloor>i + c\<rfloor>"
  show ?case
  proof (cases "i < real ?len")
    case False
    then have "real ?len \<le> i" by simp
    then have "int ?len \<le> \<lfloor>i\<rfloor>" by (simp add: le_floor_iff)
    then have "drop ?k array = []" by simp
    moreover from False have "chunkLoop array (Finite c) (Finite i) chunks = Some chunks"
      by (subst chunkLoop.simps) simp
    ultimately show ?thesis by simp
  next
    case True
    define k where "k = nat \<lfloor>i\<rfloor>"
    define f where "f = nat \<lfloor>i + c\<rfloor>"
    from True less.prems have k: "k < ?len"
      unfolding k_def by (simp add: floor_less_iff nat_less_iff)
    have "\<lfloor>i\<rfloor> + 1 \<le> \<lfloor>i + c\<rfloor>"
    proof -
      have "\<lfloor>i\<rfloor> + 1 = \<lfloor>i + 1\<rfloor>" by simp
      also have "\<dots> \<le> \<lfloor>i + c\<rfloor>" using c by (intro floor_mono) simp
      finally show ?thesis .
    qed
    with less.prems have f: "k < f" unfolding k_def f_def by linarith
    let ?s = "slice array (Finite i) (Finite (i + c))"
    from less.prems c have "?s = take (min (nat \<lfloor>i + c\<rfloor>) ?len - min (nat \<lfloor>i\<rfloor>) ?len)
               (drop (min (nat \<lfloor>i\<rfloor>) ?len) array)"
      by (intro slice_forward) simp_all
    then have "?s = take (min f ?len - min k ?len) (drop (min k ?len) array)"
      by (simp only: k_def f_def)
    with k have s: "?s = take (min f ?len - k) (drop k array)" by (simp add: min_def)
    from f k have "k < min f ?len" by (simp only: min_less_iff_conj)
    with k have sne: "?s \<noteq> []" by (simp add: s)
    from k f have m: "?len - nat \<lfloor>i + c\<rfloor> < ?len - nat \<lfloor>i\<rfloor>"
      unfolding k_def f_def by linarith
    from less.prems c have p: "0 \<le> i + c" by simp
    from less.hyps[OF m p, of "chunks @ [?s]"] obtain rest where
      rest: "chunkLoop array (Finite c) (Finite (i + c)) (chunks @ [?s])
               = Some ((chunks @ [?s]) @ rest)"
        "concat rest = drop f array" "\<forall>ch\<in>set rest. ch \<noteq> []"
      unfolding f_def by blast
    have "chunkLoop array (Finite c) (Finite i) chunks
            = chunkLoop array (Finite c) (Finite (i + c)) (chunks @ [?s])"
      using True by (subst chunkLoop.simps) simp
    with rest(1) have run: "chunkLoop array (Finite c) (Finite i) chunks
                              = Some (chunks @ (?s # rest))" by simp
    have cat: "?s @ drop f array = drop k array"
    proof (cases "f \<le> ?len")
      case True
      with f have "drop f array = drop (f - k) (drop k array)" by simp
      with True show ?thesis by (simp add: s min_def del: drop_drop)
    next
      case False
      then show ?thesis by (simp add: s min_def)
    qed
    from run cat rest(2,3) sne have
      "chunkLoop array (Finite c) (Finite i) chunks = Some (chunks @ (?s # rest))
       \<and> concat (?s # rest) = drop k array \<and> (\<forall>ch\<in>set (?s # rest). ch \<noteq> [])"
      by simp
    then show ?thesis unfolding k_def by (intro exI[of _ "?s # rest"])
  qed
qed




lemma chunkArray_PosInfinity:
  "chunkArray array PosInfinity = Some (if array = [] then [] else [array])"
proof (cases "array = []")
  case True
  then show ?thesis unfolding chunkArray_def by (subst chunkLoop.simps) simp
next
  case False
  have "chunkLoop array PosInfinity PosInfinity [array] = Some [array]"
    by (subst chunkLoop.simps) simp
  with False show ?thesis
    unfolding chunkArray_def
    by (subst chunkLoop.simps) (simp add: slice_def Math_trunc_def Let_def)
qed

lemma chunkArray_returns:
  assumes "number_le (Finite 1) c"
  shows "\<exists>chunks. chunkArray array c = Some chunks \<and> concat chunks = array
            \<and> (\<forall>ch\<in>set chunks. ch \<noteq> [])"
proof (cases c)
  case (Finite x)
  with assms have "1 \<le> x" by simp
  from chunkLoop_finite[OF this, of 0 array "[]"] Finite show ?thesis
    by (simp add: chunkArray_def)
next
  case PosInfinity
  then show ?thesis by (simp add: chunkArray_PosInfinity)
qed (use assms in simp_all)

lemma number_le_add:
  "number_le i (Finite 0) \<Longrightarrow> number_le c (Finite 0) \<Longrightarrow> number_le (number_add i c) (Finite 0)"
  by (cases i; cases c) simp_all

lemma number_le_less_length:
  "number_le i (Finite 0) \<Longrightarrow> array \<noteq> [] \<Longrightarrow> number_less i (Finite (real (length array)))"
proof (cases i)
  case (Finite x)
  assume "array \<noteq> []"
  then have "0 < length array" by simp
  moreover assume "number_le i (Finite 0)"
  with Finite have "x \<le> 0" by simp
  ultimately have "x < real (length array)" by linarith
  with Finite show ?thesis by simp
qed simp_all

lemma chunkLoop_stuck:
  assumes "chunkLoop array c i chunks = Some r"
  shows "\<not> (number_le c (Finite 0) \<and> number_le i (Finite 0) \<and> array \<noteq> [])"
proof (rule chunkLoop.raw_induct
    [where P = "\<lambda>array c i chunks r.
                  \<not> (number_le c (Finite 0) \<and> number_le i (Finite 0) \<and> array \<noteq> [])",
     OF _ assms], goal_cases)
  case (1 loop array c i chunks r)
  show ?case
  proof
    assume a: "number_le c (Finite 0) \<and> number_le i (Finite 0) \<and> array \<noteq> []"
    then have "number_less i (Finite (real (length array)))"
      by (simp add: number_le_less_length)
    with 1(2) have "loop array c (number_add i c)
                      (chunks @ [slice array i (number_add i c)]) = Some r" by simp
    from 1(1)[OF this] a show False by (simp add: number_le_add)
  qed
qed

lemma chunkArray_diverges:
  "number_le c (Finite 0) \<Longrightarrow> array \<noteq> [] \<Longrightarrow> chunkArray array c = None"
  using chunkLoop_stuck[of array c "Finite 0" "[]"]
  by (cases "chunkArray array c") (auto simp: chunkArray_def)

section \<open>The multi-URL run\<close>

lemma isLaunched_close: "\<not> isLaunched (close bm)"
  by (simp add: isLaunched_def close_def Let_def)

lemma isLaunched_launch: "isLaunched (launch cfg bm)"
  by (simp add: isLaunched_def launch_def)

lemma isLaunched_session: "isLaunched (session cfg bm)"
  by (simp add: session_def isLaunched_launch)

lemma checkUrl_session: "checkUrl env cfg bm u = (session cfg bm, pageTask env cfg (session cfg bm) u)"
  by (simp add: checkUrl_def session_def Let_def)

lemma checkUrls_session:
  "checkUrls env cfg bm urls =
     (case chunkArray urls (concurrent cfg) of
        None \<Rightarrow> None
      | Some chunks \<Rightarrow>
          Some (close (session cfg bm),
                case snd (processChunks env cfg (session cfg bm) 0 chunks []) of
                  Inl e \<Rightarrow> Inl e
                | Inr pageReports \<Rightarrow> generateReports env cfg (buildReport cfg pageReports)))"
  by (simp add: checkUrls_def session_def Let_def split: option.splits)


lemma pageTask_launched:
  "isLaunched bm \<Longrightarrow> pageTask env cfg bm u = checkPage cfg (newPage env u) u"
  by (auto simp: pageTask_def createPage_def isLaunched_def)

lemma pageTask_pageTime [simp]:
  "pageTask (env\<lparr>pageTime := t\<rparr>) cfg bm u = pageTask env cfg bm u"
  by (simp add: pageTask_def)

lemma generateReports_pageTime [simp]:
  "generateReports (env\<lparr>pageTime := t\<rparr>) cfg rep = generateReports env cfg rep"
  by (simp add: generateReports_def Let_def cong: if_cong)

text \<open>One step of the loop.\<close>

lemma processChunks_fulfilled:
  assumes "\<forall>u\<in>set c. \<not> isl (pageTask env cfg bm u)"
  shows "processChunks env cfg bm now (c # rest) acc =
           (map (\<lambda>u. \<lparr> taskUrl = u, startedAt = now, settledAt = now + pageTime env u \<rparr>) c
              # fst (processChunks env cfg bm (fold max (map (\<lambda>u. now + pageTime env u) c) now)
                       rest (acc @ map (\<lambda>u. projr (pageTask env cfg bm u)) c)),
            snd (processChunks env cfg bm (fold max (map (\<lambda>u. now + pageTime env u) c) now)
                   rest (acc @ map (\<lambda>u. projr (pageTask env cfg bm u)) c)))"
proof -
  let ?tasks = "map (\<lambda>u. (now + pageTime env u, pageTask env cfg bm u)) c"
  from assms have ok: "\<forall>t\<in>set ?tasks. \<not> isl (snd t)" by simp
  then have p: "promiseAll ?tasks = Inr (map (\<lambda>u. projr (pageTask env cfg bm u)) c)"
    by (simp add: promiseAll_all_fulfilled comp_def)
  from ok have "filter (\<lambda>t. isl (snd t)) ?tasks = []" by (simp add: filter_empty_conv)
  then have s: "promiseAllSettled now ?tasks = fold max (map (\<lambda>u. now + pageTime env u) c) now"
    by (simp add: promiseAllSettled_def comp_def)
  show ?thesis by (simp add: Let_def p s split: prod.splits)
qed

lemma processChunks_rejected:
  assumes "promiseAll (map (\<lambda>u. (now + pageTime env u, pageTask env cfg bm u)) c) = Inl e"
  shows "processChunks env cfg bm now (c # rest) acc =
           ([map (\<lambda>u. \<lparr> taskUrl = u, startedAt = now, settledAt = now + pageTime env u \<rparr>) c],
            Inl e)"
  using assms by (simp add: Let_def)

declare processChunks.simps(2) [simp del]

lemma promiseAll_some_rejected:
  assumes "\<not> (\<forall>u\<in>set c. \<not> isl (g u))"
  shows "\<exists>e. promiseAll (map (\<lambda>u. (f u, g u)) c) = Inl e"
proof -
  from assms obtain u where "u \<in> set c" "isl (g u)" by blast
  then have "(f u, g u) \<in> set (map (\<lambda>u. (f u, g u)) c)" "isl (snd (f u, g u))" by auto
  from promiseAll_rejects[OF this] show ?thesis by blast
qed

lemma processChunks_Inr_iff:
  "snd (processChunks env cfg bm now chunks acc) = Inr rs \<longleftrightarrow>
     (\<forall>u\<in>set (concat chunks). \<not> isl (pageTask env cfg bm u))
     \<and> rs = acc @ map (\<lambda>u. projr (pageTask env cfg bm u)) (concat chunks)"
proof (induction chunks arbitrary: now acc)
  case Nil
  show ?case by auto
next
  case (Cons c chunks)
  show ?case
  proof (cases "\<forall>u\<in>set c. \<not> isl (pageTask env cfg bm u)")
    case True
    then show ?thesis by (auto simp: processChunks_fulfilled Cons.IH)
  next
    case False
    from promiseAll_some_rejected[OF this, of "\<lambda>u. now + pageTime env u"]
    obtain e where "promiseAll (map (\<lambda>u. (now + pageTime env u, pageTask env cfg bm u)) c) = Inl e"
      by blast
    from processChunks_rejected[OF this] False show ?thesis by auto
  qed
qed


lemma processChunks_fails:
  assumes "u \<in> set (concat chunks)" and "isl (pageTask env cfg bm u)"
  shows "\<exists>e. snd (processChunks env cfg bm now chunks acc) = Inl e"
proof (cases "snd (processChunks env cfg bm now chunks acc)")
  case (Inl e)
  then show ?thesis by blast
next
  case (Inr rs)
  with assms show ?thesis by (auto simp: processChunks_Inr_iff)
qed












lemma url_renderPageReport [simp]: "url (renderPageReport p) = url p"
  by (simp add: renderPageReport_def)

lemma buildReport_pages [simp]: "pages (buildReport cfg rs) = rs"
  by (simp add: buildReport_def Let_def)



lemma generateReports_succeeds:
  assumes "Json \<in> set (format (output' cfg)) \<Longrightarrow> writeFile env Json = None"
    and "Html \<in> set (format (output' cfg)) \<Longrightarrow> writeFile env Html = None"
  shows "\<exists>rep'. generateReports env cfg rep = Inr rep'"
proof -
  let ?formats = "format (output' cfg)"
  let ?tasks = "(if Console \<in> set ?formats then [(reporterSettled env Console, Inr ())] else []) @
            (if Json \<in> set ?formats
             then [(reporterSettled env Json,
                    case writeFile env Json of Some e \<Rightarrow> Inl e | None \<Rightarrow> Inr ())] else []) @
            (if Html \<in> set ?formats
             then [(reporterSettled env Html,
                    case writeFile env Html of Some e \<Rightarrow> Inl e | None \<Rightarrow> Inr ())] else [])"
  from assms have "\<forall>t\<in>set ?tasks. \<not> isl (snd t)" by auto
  then have "promiseAll ?tasks = Inr (map (\<lambda>t. projr (snd t)) ?tasks)"
    by (rule promiseAll_all_fulfilled)
  then show ?thesis by (simp add: generateReports_def Let_def)
qed

lemma generateReports_write_fails:
  assumes "filter (\<lambda>f. f \<in> set (format (output' cfg)) \<and> writeFile env f \<noteq> None) [Json, Html] = [f]"
    and "writeFile env f = Some e"
  shows "generateReports env cfg rep = Inl e"
proof -
  let ?formats = "format (output' cfg)"
  let ?tasks = "(if Console \<in> set ?formats then [(reporterSettled env Console, Inr ())] else []) @
            (if Json \<in> set ?formats
             then [(reporterSettled env Json,
                    case writeFile env Json of Some e \<Rightarrow> Inl e | None \<Rightarrow> Inr ())] else []) @
            (if Html \<in> set ?formats
             then [(reporterSettled env Html,
                    case writeFile env Html of Some e \<Rightarrow> Inl e | None \<Rightarrow> Inr ())] else [])"
  from assms have "filter (\<lambda>t. isl (snd t)) ?tasks = [(reporterSettled env f, Inl e)]"
    by (auto split: if_splits option.splits)
  then have "promiseAll ?tasks = Inl (projl (snd (reporterSettled env f, Inl e :: error + unit)))"
    by (rule promiseAll_single_rejection)
  then show ?thesis by (simp add: generateReports_def Let_def)
qed

lemma checkUrls_succeeds:
  assumes "number_le (Finite 1) (concurrent cfg)"
    and "\<forall>u\<in>set urls. \<not> isl (pageTask env cfg (session cfg bm) u)"
    and "Json \<in> set (format (output' cfg)) \<Longrightarrow> writeFile env Json = None"
    and "Html \<in> set (format (output' cfg)) \<Longrightarrow> writeFile env Html = None"
  shows "\<exists>rep. checkUrls env cfg bm urls = Some (close (session cfg bm), Inr rep)"
proof -
  from chunkArray_returns[OF assms(1), of urls] obtain chunks where
    c: "chunkArray urls (concurrent cfg) = Some chunks" and cc: "concat chunks = urls" by blast
  from cc assms(2) obtain rs where
    "snd (processChunks env cfg (session cfg bm) 0 chunks []) = Inr rs"
    by (simp add: processChunks_Inr_iff)
  moreover from generateReports_succeeds[OF assms(3,4)]
  obtain rep where "generateReports env cfg (buildReport cfg rs) = Inr rep" by blast
  ultimately show ?thesis using c by (simp add: checkUrls_session)
qed

lemma checkUrls_page_fails:
  assumes "number_le (Finite 1) (concurrent cfg)" and "u \<in> set urls"
    and "isl (pageTask env cfg (session cfg bm) u)"
  shows "\<exists>e. checkUrls env cfg bm urls = Some (close (session cfg bm), Inl e)"
proof -
  from chunkArray_returns[OF assms(1), of urls] obtain chunks where
    c: "chunkArray urls (concurrent cfg) = Some chunks" and cc: "concat chunks = urls" by blast
  from assms(2) cc have "u \<in> set (concat chunks)" by simp
  from processChunks_fails[OF this assms(3)]
  obtain e where "snd (processChunks env cfg (session cfg bm) 0 chunks []) = Inl e" by blast
  with c show ?thesis by (simp add: checkUrls_session)
qed

lemma checkUrls_report_fails:
  assumes "number_le (Finite 1) (concurrent cfg)"
    and "\<forall>u\<in>set urls. \<not> isl (pageTask env cfg (session cfg bm) u)"
    and "filter (\<lambda>f. f \<in> set (format (output' cfg)) \<and> writeFile env f \<noteq> None) [Json, Html] = [f]"
    and "writeFile env f = Some e"
  shows "checkUrls env cfg bm urls = Some (close (session cfg bm), Inl e)"
proof -
  from chunkArray_returns[OF assms(1), of urls] obtain chunks where
    c: "chunkArray urls (concurrent cfg) = Some chunks" and cc: "concat chunks = urls" by blast
  from cc assms(2) obtain rs where
    "snd (processChunks env cfg (session cfg bm) 0 chunks []) = Inr rs"
    by (simp add: processChunks_Inr_iff)
  moreover have "generateReports env cfg (buildReport cfg rs) = Inl e"
    by (rule generateReports_write_fails[OF assms(3,4)])
  ultimately show ?thesis using c by (simp add: checkUrls_session)
qed


lemma samplePage_ok: "\<not> isl (checkPage cfg samplePage u)"
proof -
  have "\<not> isl (check c samplePage cfg)" for c
    by (cases c) (simp_all add: samplePage_checks)
  then have "\<forall>c\<in>set (enabledCheckers cfg). \<not> isl (check c samplePage cfg)" by blast
  from checkPage_succeeds[OF samplePage_nav this] show ?thesis by (metis sum.disc(2))
qed

lemma brokenPage_fails: "isl (checkPage cfg brokenPage u)"
  by (simp add: checkPage_def brokenPage_def)

lemma sampleEnv_tasks:
  "u \<noteq> brokenUrl \<Longrightarrow> \<not> isl (pageTask sampleEnv cfg (session cfg bm) u)"
  "isl (pageTask sampleEnv cfg (session cfg bm) brokenUrl)"
  by (simp_all add: pageTask_launched isLaunched_session sampleEnv_def samplePage_ok
        brokenPage_fails)

lemma urls5_ok: "\<forall>u\<in>set urls5. \<not> isl (pageTask sampleEnv cfg (session cfg bm) u)"
  by (simp add: urls5_def sampleEnv_tasks brokenUrl_def)

lemma close_session_unlaunched: "close (session cfg unlaunched) = unlaunched"
  by (simp add: close_def session_def unlaunched_def isLaunched_def launch_def)





text \<open>
  C8. Whenever \<^verbatim>\<open>checkUrls\<close> settles, with a report or with an error of a page check or
  of a reporter, the manager it leaves is not launched (browser and context are both
  cleared); a \<^verbatim>\<open>checkUrl\<close> that returns a report leaves the manager launched.
\<close>

theorem checkUrls_closes_session:
  "(checkUrls env cfg bm urls = Some (bm', res) \<longrightarrow>
      \<not> isLaunched bm' \<and> BrowserManager.browser bm' = None \<and> context' bm' = None)
   \<and> (checkUrl env cfg bm u = (bm'', Inr r) \<longrightarrow> isLaunched bm'')"
proof (intro conjI impI)
  assume "checkUrls env cfg bm urls = Some (bm', res)"
  then have bm': "bm' = close (session cfg bm)"
    by (auto simp: checkUrls_session split: option.splits)
  then show "\<not> isLaunched bm'" by (simp add: isLaunched_close)
  from bm' show "BrowserManager.browser bm' = None" by (simp add: close_def Let_def)
  from bm' show "context' bm' = None" by (simp add: close_def Let_def)
next
  assume "checkUrl env cfg bm u = (bm'', Inr r)"
  then have "bm'' = session cfg bm" by (simp add: checkUrl_session)
  then show "isLaunched bm''" by (simp add: isLaunched_session)
qed

theorem checkUrls_closes_session_witness:
  "(\<exists>bm' rep. checkUrls sampleEnv DEFAULT_CONFIG unlaunched urls5 = Some (bm', Inr rep)
       \<and> \<not> isLaunched bm')
   \<and> (\<exists>bm' e. checkUrls sampleEnv DEFAULT_CONFIG unlaunched (urls5 @ [brokenUrl])
                 = Some (bm', Inl e) \<and> \<not> isLaunched bm')
   \<and> (\<exists>bm'. checkUrls sampleEnv jsonConfig unlaunched urls5
                 = Some (bm', Inl (Thrown ''Error: EACCES: permission denied''))
              \<and> \<not> isLaunched bm')
   \<and> (\<exists>bm' r. checkUrl sampleEnv DEFAULT_CONFIG unlaunched sampleUrl = (bm', Inr r)
                \<and> isLaunched bm')"
proof -
  have one: "number_le (Finite 1) (concurrent DEFAULT_CONFIG)"
    "number_le (Finite 1) (concurrent jsonConfig)"
    by (simp_all add: DEFAULT_CONFIG_def jsonConfig_def)
  have "\<exists>rep. checkUrls sampleEnv DEFAULT_CONFIG unlaunched urls5
                   = Some (close (session DEFAULT_CONFIG unlaunched), Inr rep)"
    by (rule checkUrls_succeeds[OF one(1) urls5_ok]) (simp_all add: DEFAULT_CONFIG_def)
  then obtain rep where
    a: "checkUrls sampleEnv DEFAULT_CONFIG unlaunched urls5
          = Some (close (session DEFAULT_CONFIG unlaunched), Inr rep)" by blast
  from checkUrls_closes_session[of sampleEnv DEFAULT_CONFIG unlaunched urls5
      "close (session DEFAULT_CONFIG unlaunched)" "Inr rep"] a
  have a': "\<not> isLaunched (close (session DEFAULT_CONFIG unlaunched))" by blast
  have "\<exists>e. checkUrls sampleEnv DEFAULT_CONFIG unlaunched (urls5 @ [brokenUrl])
                   = Some (close (session DEFAULT_CONFIG unlaunched), Inl e)"
    by (rule checkUrls_page_fails[OF one(1), of brokenUrl]) (simp_all add: sampleEnv_tasks)
  then obtain e where
    b: "checkUrls sampleEnv DEFAULT_CONFIG unlaunched (urls5 @ [brokenUrl])
          = Some (close (session DEFAULT_CONFIG unlaunched), Inl e)" by blast
  from checkUrls_closes_session[of sampleEnv DEFAULT_CONFIG unlaunched "urls5 @ [brokenUrl]"
      "close (session DEFAULT_CONFIG unlaunched)" "Inl e"] b
  have b': "\<not> isLaunched (close (session DEFAULT_CONFIG unlaunched))" by blast
  have c: "checkUrls sampleEnv jsonConfig unlaunched urls5
          = Some (close (session jsonConfig unlaunched),
                  Inl (Thrown ''Error: EACCES: permission denied''))"
    by (rule checkUrls_report_fails[OF one(2) urls5_ok, where f = Json])
       (simp_all add: jsonConfig_def sampleEnv_def)
  from checkUrls_closes_session[of sampleEnv jsonConfig unlaunched urls5
      "close (session jsonConfig unlaunched)" "Inl (Thrown ''Error: EACCES: permission denied'')"] c
  have c': "\<not> isLaunched (close (session jsonConfig unlaunched))" by blast
  have "\<not> isl (pageTask sampleEnv DEFAULT_CONFIG (session DEFAULT_CONFIG unlaunched) sampleUrl)"
    by (rule sampleEnv_tasks(1)) (simp add: sampleUrl_def brokenUrl_def)
  then obtain r where
    "pageTask sampleEnv DEFAULT_CONFIG (session DEFAULT_CONFIG unlaunched) sampleUrl = Inr r"
    by (cases "pageTask sampleEnv DEFAULT_CONFIG (session DEFAULT_CONFIG unlaunched) sampleUrl") auto
  then have d: "checkUrl sampleEnv DEFAULT_CONFIG unlaunched sampleUrl
                  = (session DEFAULT_CONFIG unlaunched, Inr r)"
    by (simp add: checkUrl_session)
  from checkUrls_closes_session[of sampleEnv DEFAULT_CONFIG unlaunched urls5
      "close (session DEFAULT_CONFIG unlaunched)" "Inr rep" sampleUrl
      "session DEFAULT_CONFIG unlaunched" r] d
  have d': "isLaunched (session DEFAULT_CONFIG unlaunched)" by blast
  from a a' b b' c c' d d' show ?thesis by blast
qed

text \<open>
  C10. \<^verbatim>\<open>chunkArray\<close> returns for every list when the chunk size is at least 1; with a
  chunk size of 0 or less and a non-empty list its loop never ends; so \<^verbatim>\<open>checkUrls\<close>
  settles when \<open>concurrent\<close> is at least 1 and never settles when it is 0 or less and
  there is a URL. The comparisons are those of JavaScript numbers, so the sizes range
  over whole and fractional numbers and the infinities.
\<close>

theorem chunkArray_termination:
  "(number_le (Finite 1) n \<longrightarrow> (\<exists>chunks. chunkArray array n = Some chunks))
   \<and> (number_le n (Finite 0) \<and> array \<noteq> [] \<longrightarrow> chunkArray array n = None)
   \<and> (number_le (Finite 1) (concurrent cfg) \<longrightarrow> (\<exists>out. checkUrls env cfg bm urls = Some out))
   \<and> (number_le (concurrent cfg) (Finite 0) \<and> urls \<noteq> [] \<longrightarrow>
        checkUrls env cfg bm urls = None)"
proof (intro conjI impI)
  assume "number_le (Finite 1) n"
  from chunkArray_returns[OF this, of array]
  show "\<exists>chunks. chunkArray array n = Some chunks" by blast
next
  assume "number_le n (Finite 0) \<and> array \<noteq> []"
  then show "chunkArray array n = None" by (simp add: chunkArray_diverges)
next
  assume "number_le (Finite 1) (concurrent cfg)"
  from chunkArray_returns[OF this, of urls]
  show "\<exists>out. checkUrls env cfg bm urls = Some out"
    by (auto simp: checkUrls_session)
next
  assume "number_le (concurrent cfg) (Finite 0) \<and> urls \<noteq> []"
  then show "checkUrls env cfg bm urls = None"
    by (simp add: checkUrls_session chunkArray_diverges)
qed

theorem chunkArray_termination_witness:
  "(\<exists>chunks. chunkArray urls5 (Finite 1) = Some chunks)
   \<and> (\<exists>chunks. chunkArray urls5 (Finite (5 / 2)) = Some chunks)
   \<and> (\<exists>chunks. chunkArray urls5 PosInfinity = Some chunks)
   \<and> chunkArray urls5 (Finite 0) = None
   \<and> chunkArray urls5 (Finite (- 2)) = None
   \<and> chunkArray urls5 NegInfinity = None
   \<and> (\<exists>out. checkUrls sampleEnv DEFAULT_CONFIG unlaunched urls5 = Some out)
   \<and> checkUrls sampleEnv (DEFAULT_CONFIG\<lparr>concurrent := Finite 0\<rparr>) unlaunched urls5 = None"
proof -
  have ne: "urls5 \<noteq> []" by (simp add: urls5_def)
  have c: "number_le (Finite 1) (concurrent DEFAULT_CONFIG)"
    "number_le (concurrent (DEFAULT_CONFIG\<lparr>concurrent := Finite 0\<rparr>)) (Finite 0)"
    by (simp_all add: DEFAULT_CONFIG_def)
  from chunkArray_termination[of "Finite 1" urls5 DEFAULT_CONFIG sampleEnv unlaunched urls5] c(1)
  have 1: "\<exists>chunks. chunkArray urls5 (Finite 1) = Some chunks"
    "\<exists>out. checkUrls sampleEnv DEFAULT_CONFIG unlaunched urls5 = Some out" by simp_all
  from chunkArray_termination[of "Finite (5 / 2)" urls5 DEFAULT_CONFIG sampleEnv unlaunched urls5]
  have 2: "\<exists>chunks. chunkArray urls5 (Finite (5 / 2)) = Some chunks" by simp
  from chunkArray_termination[of PosInfinity urls5 DEFAULT_CONFIG sampleEnv unlaunched urls5]
  have 3: "\<exists>chunks. chunkArray urls5 PosInfinity = Some chunks" by simp
  from chunkArray_termination[of "Finite 0" urls5 "DEFAULT_CONFIG\<lparr>concurrent := Finite 0\<rparr>"
      sampleEnv unlaunched urls5] ne c(2)
  have 4: "chunkArray urls5 (Finite 0) = None"
    "checkUrls sampleEnv (DEFAULT_CONFIG\<lparr>concurrent := Finite 0\<rparr>) unlaunched urls5 = None"
    by simp_all
  from chunkArray_termination[of "Finite (- 2)" urls5 DEFAULT_CONFIG sampleEnv unlaunched urls5] ne
  have 5: "chunkArray urls5 (Finite (- 2)) = None" by simp
  from chunkArray_termination[of NegInfinity urls5 DEFAULT_CONFIG sampleEnv unlaunched urls5] ne
  have 6: "chunkArray urls5 NegInfinity = None" by simp
  from 1 2 3 4 5 6 show ?thesis by (intro conjI)
qed

end
